theory Spec2Isabelle
  imports Complex_Main "HOL-Library.Log_Nat"
begin

text \<open>
  Tip Chain is a web application that prepares cryptocurrency tips behind a frame
  endpoint. This theory embeds its rate limiter, its validators, its token tables and
  its transaction preparer as functions of HOL, and states the properties of the
  specification about them. Definitions come first, taken from the TypeScript sources
  function by function; the properties follow, component by component.
\<close>

section \<open>The in-memory rate limiter (lib/rate-limit, class InMemoryRateLimiter)\<close>

text \<open>
  The class keeps a \<^verbatim>\<open>Map<string, { count, resetTime }>\<close> and the two numbers
  \<^verbatim>\<open>maxRequests\<close> and \<^verbatim>\<open>windowMs\<close>. All numbers of this class are integral in the
  program (counts, millisecond timestamps, the configured limits), so they are modelled as
  \<^typ>\<open>int\<close>; the sums and comparisons of the class are exact on doubles as long as the
  values stay below \<open>2 ^ 53\<close>, which is above every reading of the clock. The two ambient
  inputs of \<^verbatim>\<open>limit\<close> are made explicit arguments:
  \<^verbatim>\<open>Date.now()\<close> is \<open>now\<close>, and the outcome of the draw \<^verbatim>\<open>Math.random() < 0.01\<close> is
  the flag \<open>sweep\<close>. The field \<^verbatim>\<open>limit\<close> of the result is called \<open>limit_max\<close>, since
  \<open>limit\<close> is the method.
\<close>

record entry =
  count :: int
  resetTime :: int

record RateLimitResult =
  success :: bool
  limit_max :: int
  remaining :: int
  reset :: int

record InMemoryRateLimiter =
  requests :: "string \<rightharpoonup> entry"
  maxRequests :: int
  windowMs :: int

text \<open>The constructor, with its default arguments written out by the caller.\<close>

definition newLimiter :: "int \<Rightarrow> int \<Rightarrow> InMemoryRateLimiter" where
  "newLimiter n w = \<lparr>requests = Map.empty, maxRequests = n, windowMs = w\<rparr>"

text \<open>\<^verbatim>\<open>cleanup(now)\<close> deletes every entry whose window lies strictly in the past.\<close>

definition cleanup :: "InMemoryRateLimiter \<Rightarrow> int \<Rightarrow> InMemoryRateLimiter" where
  "cleanup rl now =
     rl\<lparr>requests := (\<lambda>k. case requests rl k of
                              None \<Rightarrow> None
                            | Some e \<Rightarrow> if now > resetTime e then None else Some e)\<rparr>"

text \<open>
  \<^verbatim>\<open>entry.count++\<close> mutates the object that was read from the table before the sweep.
  The table sees the new count exactly when it still holds that object.
\<close>

definition increment :: "InMemoryRateLimiter \<Rightarrow> string \<Rightarrow> entry \<Rightarrow> InMemoryRateLimiter" where
  "increment rl identifier e =
     (case requests rl identifier of
        None \<Rightarrow> rl
      | Some _ \<Rightarrow> rl\<lparr>requests := (requests rl)(identifier \<mapsto> e\<lparr>count := count e + 1\<rparr>)\<rparr>)"

definition startWindow ::
  "InMemoryRateLimiter \<Rightarrow> string \<Rightarrow> int \<Rightarrow> RateLimitResult \<times> InMemoryRateLimiter" where
  "startWindow rl identifier now =
     (\<lparr>success = True, limit_max = maxRequests rl, remaining = maxRequests rl - 1,
       reset = now + windowMs rl\<rparr>,
      rl\<lparr>requests := (requests rl)(identifier \<mapsto> \<lparr>count = 1, resetTime = now + windowMs rl\<rparr>)\<rparr>)"

definition limit ::
  "InMemoryRateLimiter \<Rightarrow> string \<Rightarrow> int \<Rightarrow> bool \<Rightarrow> RateLimitResult \<times> InMemoryRateLimiter" where
  "limit rl identifier now sweep =
     (let found = requests rl identifier;
          rl1 = (if sweep then cleanup rl now else rl)
      in case found of
           None \<Rightarrow> startWindow rl1 identifier now
         | Some e \<Rightarrow>
             if now > resetTime e then startWindow rl1 identifier now
             else
               let rl2 = increment rl1 identifier e;
                   c = count e + 1
               in if c > maxRequests rl
                  then (\<lparr>success = False, limit_max = maxRequests rl, remaining = 0,
                         reset = resetTime e\<rparr>, rl2)
                  else (\<lparr>success = True, limit_max = maxRequests rl,
                         remaining = maxRequests rl - c, reset = resetTime e\<rparr>, rl2))"

text \<open>
  A run of calls by one identifier: each call is the pair of its clock reading and its
  sweep flag. The results are returned in call order with the final limiter.
\<close>

fun limitAll ::
  "InMemoryRateLimiter \<Rightarrow> string \<Rightarrow> (int \<times> bool) list \<Rightarrow> RateLimitResult list \<times> InMemoryRateLimiter"
  where
  "limitAll rl identifier [] = ([], rl)"
| "limitAll rl identifier ((now, sweep) # calls) =
     (let (r, rl1) = limit rl identifier now sweep;
          (rs, rl2) = limitAll rl1 identifier calls
      in (r # rs, rl2))"

section \<open>JavaScript numbers and \<^verbatim>\<open>parseFloat\<close>\<close>

text \<open>
  A JavaScript number is an IEEE 754 binary64 value. The finite ones are carried by their
  exact rational value (the two zeros are not distinguished: no comparison of the program
  tells them apart), next to \<open>NaN\<close> and the two infinities. Numbers that arrive from a
  JSON body are finite values of the same type.
\<close>

datatype jsnumber = NaN | Finite rat | PosInfinity | NegInfinity

text \<open>The relational operators: every comparison with \<open>NaN\<close> is false.\<close>

fun js_less :: "jsnumber \<Rightarrow> jsnumber \<Rightarrow> bool" where
  "js_less (Finite a) (Finite b) = (a < b)"
| "js_less NegInfinity (Finite b) = True"
| "js_less NegInfinity PosInfinity = True"
| "js_less (Finite a) PosInfinity = True"
| "js_less a b = False"

definition js_greater :: "jsnumber \<Rightarrow> jsnumber \<Rightarrow> bool" where
  "js_greater a b = js_less b a"

definition js_less_eq :: "jsnumber \<Rightarrow> jsnumber \<Rightarrow> bool" where
  "js_less_eq a b = (a \<noteq> NaN \<and> b \<noteq> NaN \<and> \<not> js_less b a)"

definition isNaN :: "jsnumber \<Rightarrow> bool" where
  "isNaN a = (a = NaN)"

fun js_negate :: "jsnumber \<Rightarrow> jsnumber" where
  "js_negate (Finite a) = Finite (- a)"
| "js_negate PosInfinity = NegInfinity"
| "js_negate NegInfinity = PosInfinity"
| "js_negate NaN = NaN"

text \<open>
  Rounding of the exact value \<open>a / b\<close> (\<open>a \<ge> 0\<close>, \<open>b > 0\<close>) to binary64, to nearest
  with ties to even: the unit in the last place is \<open>2 ^ q\<close> with
  \<open>q = max (\<lfloor>log\<^sub>2 (a / b)\<rfloor> - 52) (-1074)\<close>, the significand is \<open>a / (b * 2 ^ q)\<close>
  rounded to an integer, and a result of \<open>2 ^ 1024\<close> or more is \<open>Infinity\<close>.
\<close>

definition pow2 :: "int \<Rightarrow> rat" where
  "pow2 k = (if 0 \<le> k then 2 ^ nat k else 1 / 2 ^ nat (- k))"

definition roundHalfEven :: "int \<Rightarrow> int \<Rightarrow> int" where
  "roundHalfEven n d =
     (let f = n div d; r = n mod d
      in if 2 * r < d then f else if d < 2 * r then f + 1 else if even f then f else f + 1)"

text \<open>
  \<open>floorLog2 a b\<close> is \<open>\<lfloor>log\<^sub>2 (a / b)\<rfloor>\<close> for positive \<open>a\<close> and \<open>b\<close>: with \<open>d\<close> the
  difference of the bit lengths, \<open>a / b\<close> lies between \<open>2 ^ (d - 1)\<close> and \<open>2 ^ (d + 1)\<close>,
  and one comparison decides.
\<close>

definition floorLog2 :: "int \<Rightarrow> int \<Rightarrow> int" where
  "floorLog2 a b =
     (let d = bitlen a - bitlen b
      in if (if 0 \<le> d then b * 2 ^ nat d \<le> a else b \<le> a * 2 ^ nat (- d)) then d else d - 1)"

definition toDouble :: "int \<Rightarrow> int \<Rightarrow> jsnumber" where
  "toDouble a b =
     (if a = 0 then Finite 0
      else
        let q = max (floorLog2 a b - 52) (- 1074);
            m = (if 0 \<le> q then roundHalfEven a (b * 2 ^ nat q)
                 else roundHalfEven (a * 2 ^ nat (- q)) b)
        in if 2 ^ 1024 \<le> of_int m * pow2 q then PosInfinity else Finite (of_int m * pow2 q))"

text \<open>
  Strings are lists of characters, one per UTF-16 code unit up to \<open>0xFF\<close>. The white
  space that \<^verbatim>\<open>parseFloat\<close> and \<^verbatim>\<open>trim\<close> skip in that range: tab, line feed, vertical
  tab, form feed, carriage return, space and no-break space.
\<close>

definition isWhiteSpace :: "char \<Rightarrow> bool" where
  "isWhiteSpace c = (of_char c \<in> set [9, 10, 11, 12, 13, 32, 160 :: int])"

definition isDigit :: "char \<Rightarrow> bool" where
  "isDigit c = (48 \<le> (of_char c :: int) \<and> (of_char c :: int) \<le> 57)"

definition digitVal :: "char \<Rightarrow> int" where
  "digitVal c = of_char c - 48"

text \<open>The number written by a string of decimal digits (0 for the empty string).\<close>

definition digitsVal :: "string \<Rightarrow> int" where
  "digitsVal ds = foldl (\<lambda>acc c. 10 * acc + digitVal c) 0 ds"

text \<open>
  \<^verbatim>\<open>parseFloat\<close> skips leading white space and reads the longest prefix that is a
  \<open>StrDecimalLiteral\<close>: an optional sign, then \<^verbatim>\<open>Infinity\<close> or digits with an optional
  fraction and an optional exponent part (an exponent indicator counts only when a
  well-formed signed integer follows it). Without such a prefix the result is \<open>NaN\<close>.
  The value of the literal is rounded exactly, as V8 does. (For a literal of more than 20
  significant digits the language standard also admits rounding the literal cut or
  incremented at the 20th digit; for \<open>1000000.000000000000000001\<close> all three give the
  double 1000000, since they differ from it by less than \<open>2 ^ - 34\<close>.)
\<close>

definition exponentPart :: "string \<Rightarrow> int" where
  "exponentPart r =
     (case r of
        [] \<Rightarrow> 0
      | c # r' \<Rightarrow>
          if c = CHR ''e'' \<or> c = CHR ''E'' then
            (case r' of
               [] \<Rightarrow> 0
             | s # ds \<Rightarrow>
                 if s = CHR ''+'' \<and> takeWhile isDigit ds \<noteq> [] then digitsVal (takeWhile isDigit ds)
                 else if s = CHR ''-'' \<and> takeWhile isDigit ds \<noteq> [] then - digitsVal (takeWhile isDigit ds)
                 else digitsVal (takeWhile isDigit r'))
          else 0)"

definition strDecimalLiteral :: "string \<Rightarrow> (int \<times> int) option" where
  "strDecimalLiteral u =
     (let ip = takeWhile isDigit u;
          r1 = dropWhile isDigit u;
          fp = (case r1 of [] \<Rightarrow> [] | c # r \<Rightarrow> if c = CHR ''.'' then takeWhile isDigit r else []);
          r2 = (case r1 of [] \<Rightarrow> [] | c # r \<Rightarrow> if c = CHR ''.'' then dropWhile isDigit r else r1)
      in if ip = [] \<and> fp = [] then None
         else Some (digitsVal (ip @ fp), exponentPart r2 - int (length fp)))"

definition parseFloat :: "string \<Rightarrow> jsnumber" where
  "parseFloat s =
     (let t = dropWhile isWhiteSpace s;
          neg = (case t of [] \<Rightarrow> False | c # r \<Rightarrow> c = CHR ''-'');
          u = (case t of [] \<Rightarrow> [] | c # r \<Rightarrow> if c = CHR ''-'' \<or> c = CHR ''+'' then r else t)
      in if take 8 u = ''Infinity'' then (if neg then NegInfinity else PosInfinity)
         else
           (case strDecimalLiteral u of
              None \<Rightarrow> NaN
            | Some (m, e) \<Rightarrow>
                let v = (if 0 \<le> e then toDouble (m * 10 ^ nat e) 1
                         else toDouble m (10 ^ nat (- e)))
                in if neg then js_negate v else v))"

section \<open>Validation (lib/validation.ts)\<close>

record ValidationResult =
  isValid :: bool
  error :: "string option"

text \<open>\<^verbatim>\<open>String.prototype.split\<close> with a one-character separator.\<close>

fun splitOn :: "char \<Rightarrow> string \<Rightarrow> string list" where
  "splitOn sep [] = [[]]"
| "splitOn sep (c # cs) =
     (if c = sep then [] # splitOn sep cs
      else (case splitOn sep cs of [] \<Rightarrow> [[c]] | p # ps \<Rightarrow> (c # p) # ps))"

definition validateAmount :: "string \<Rightarrow> ValidationResult" where
  "validateAmount amount =
     (let numAmount = parseFloat amount
      in if isNaN numAmount
         then \<lparr>isValid = False, error = Some ''Amount must be a valid number''\<rparr>
         else if js_less_eq numAmount (Finite 0)
         then \<lparr>isValid = False, error = Some ''Amount must be greater than 0''\<rparr>
         else if js_greater numAmount (Finite 1000000)
         then \<lparr>isValid = False, error = Some ''Amount is too large''\<rparr>
         else
           let decimalParts = splitOn CHR ''.'' amount
           in if length decimalParts > 1 \<and> length (decimalParts ! 1) > 18
              then \<lparr>isValid = False, error = Some ''Too many decimal places''\<rparr>
              else \<lparr>isValid = True, error = None\<rparr>)"

text \<open>
  \<^verbatim>\<open>sanitizeInput\<close>: \<^verbatim>\<open>input.trim().replace(/[<>]/g, '').slice(0, 1000)\<close>.
\<close>

definition trim :: "string \<Rightarrow> string" where
  "trim s = rev (dropWhile isWhiteSpace (rev (dropWhile isWhiteSpace s)))"

definition sanitizeInput :: "string \<Rightarrow> string" where
  "sanitizeInput input =
     take 1000 (filter (\<lambda>c. c \<noteq> CHR ''<'' \<and> c \<noteq> CHR ''>'') (trim input))"

text \<open>\<^verbatim>\<open>validateENS\<close>: the pattern \<^verbatim>\<open>/^[a-zA-Z0-9-]+\.eth$/\<close>.\<close>

definition isAsciiLetter :: "char \<Rightarrow> bool" where
  "isAsciiLetter c =
     ((65 \<le> (of_char c :: int) \<and> (of_char c :: int) \<le> 90)
      \<or> (97 \<le> (of_char c :: int) \<and> (of_char c :: int) \<le> 122))"

definition isEnsChar :: "char \<Rightarrow> bool" where
  "isEnsChar c = (isAsciiLetter c \<or> isDigit c \<or> c = CHR ''-'')"

definition validateENS :: "string \<Rightarrow> bool" where
  "validateENS name =
     (4 < length name
      \<and> drop (length name - 4) name = ''.eth''
      \<and> list_all isEnsChar (take (length name - 4) name))"

text \<open>
  The recipient rule of \<^verbatim>\<open>tipRequestSchema\<close>:
  \<^verbatim>\<open>z.string().min(1).refine((val) => isAddress(val) || validateENS(val))\<close>.
  \<^verbatim>\<open>isAddress\<close> is imported from the viem library and stays a parameter.
\<close>

definition tipRequestSchema_recipient :: "(string \<Rightarrow> bool) \<Rightarrow> string \<Rightarrow> bool" where
  "tipRequestSchema_recipient isAddress val =
     (1 \<le> length val \<and> (isAddress val \<or> validateENS val))"

subsection \<open>Frame messages\<close>

text \<open>
  The argument of \<^verbatim>\<open>validateFrameMessage\<close> has type \<^verbatim>\<open>any\<close>. An object is the table of
  its own properties. The property names this module reads are neither array indices nor
  names that objects or arrays inherit, so an array has none of them.
\<close>

datatype jsvalue =
    JUndefined
  | JNull
  | JBoolean bool
  | JNumber jsnumber
  | JString string
  | JArray "jsvalue list"
  | JObject "(string \<times> jsvalue) list"

fun truthy :: "jsvalue \<Rightarrow> bool" where
  "truthy JUndefined = False"
| "truthy JNull = False"
| "truthy (JBoolean b) = b"
| "truthy (JNumber n) = (n \<noteq> NaN \<and> n \<noteq> Finite 0)"
| "truthy (JString s) = (s \<noteq> [])"
| "truthy (JArray xs) = True"
| "truthy (JObject ps) = True"

fun typeof :: "jsvalue \<Rightarrow> string" where
  "typeof JUndefined = ''undefined''"
| "typeof JNull = ''object''"
| "typeof (JBoolean b) = ''boolean''"
| "typeof (JNumber n) = ''number''"
| "typeof (JString s) = ''string''"
| "typeof (JArray xs) = ''object''"
| "typeof (JObject ps) = ''object''"

text \<open>\<^verbatim>\<open>key in v\<close> and \<^verbatim>\<open>v.key\<close> for the property names of this module.\<close>

fun hasProperty :: "string \<Rightarrow> jsvalue \<Rightarrow> bool" where
  "hasProperty key (JObject ps) = (map_of ps key \<noteq> None)"
| "hasProperty key v = False"

fun getProperty :: "jsvalue \<Rightarrow> string \<Rightarrow> jsvalue" where
  "getProperty (JObject ps) key = (case map_of ps key of None \<Rightarrow> JUndefined | Some v \<Rightarrow> v)"
| "getProperty v key = JUndefined"

fun numberOf :: "jsvalue \<Rightarrow> jsnumber" where
  "numberOf (JNumber n) = n"
| "numberOf v = NaN"

fun stringOf :: "jsvalue \<Rightarrow> string" where
  "stringOf (JString s) = s"
| "stringOf v = []"

text \<open>
  \<^verbatim>\<open>validateFrameMessage\<close>. The flag \<open>urlParses\<close> is the outcome of
  \<^verbatim>\<open>isValidUrl(message.url)\<close>, that is, whether \<^verbatim>\<open>new URL(message.url)\<close> returns; it is
  read only when \<^verbatim>\<open>message.url\<close> is a string. No step of the body throws on a non-null
  object, so the \<^verbatim>\<open>catch\<close> branch is not reached.
\<close>

definition requiredFields :: "string list" where
  "requiredFields = [''fid'', ''url'', ''messageHash'', ''timestamp'', ''network'']"

definition validateFrameMessage :: "bool \<Rightarrow> jsvalue \<Rightarrow> bool" where
  "validateFrameMessage urlParses message =
     (if \<not> truthy message \<or> typeof message \<noteq> ''object'' then False
      else if \<not> list_all (\<lambda>field. hasProperty field message) requiredFields then False
      else if typeof (getProperty message ''fid'') \<noteq> ''number''
              \<or> js_less_eq (numberOf (getProperty message ''fid'')) (Finite 0) then False
      else if typeof (getProperty message ''url'') \<noteq> ''string'' \<or> \<not> urlParses then False
      else if typeof (getProperty message ''messageHash'') \<noteq> ''string''
              \<or> length (stringOf (getProperty message ''messageHash'')) < 10 then False
      else if typeof (getProperty message ''timestamp'') \<noteq> ''number''
              \<or> js_less_eq (numberOf (getProperty message ''timestamp'')) (Finite 0) then False
      else if typeof (getProperty message ''network'') \<noteq> ''number'' then False
      else if hasProperty ''buttonIndex'' message
              \<and> (typeof (getProperty message ''buttonIndex'') \<noteq> ''number''
                   \<or> js_less (numberOf (getProperty message ''buttonIndex'')) (Finite 1)
                   \<or> js_greater (numberOf (getProperty message ''buttonIndex'')) (Finite 4))
           then False
      else if hasProperty ''inputText'' message
              \<and> (typeof (getProperty message ''inputText'') \<noteq> ''string''
                   \<or> 256 < length (stringOf (getProperty message ''inputText'')))
           then False
      else if hasProperty ''castId'' message
              \<and> (\<not> truthy (getProperty message ''castId'')
                   \<or> typeof (getProperty (getProperty message ''castId'') ''fid'') \<noteq> ''number''
                   \<or> typeof (getProperty (getProperty message ''castId'') ''hash'') \<noteq> ''string'')
           then False
      else True)"

section \<open>Chains, tokens and contracts (lib/chain, lib/currency.ts, lib/contracts)\<close>

record SupportedChain =
  chain_id :: int
  chain_name :: string

definition SUPPORTED_CHAINS :: "SupportedChain list" where
  "SUPPORTED_CHAINS =
     [\<lparr>chain_id = 1, chain_name = ''Ethereum''\<rparr>,
      \<lparr>chain_id = 8453, chain_name = ''Base''\<rparr>,
      \<lparr>chain_id = 10, chain_name = ''Optimism''\<rparr>]"

definition TESTNET_CHAINS :: "SupportedChain list" where
  "TESTNET_CHAINS =
     [\<lparr>chain_id = 11155111, chain_name = ''Sepolia''\<rparr>,
      \<lparr>chain_id = 84532, chain_name = ''Base Sepolia''\<rparr>,
      \<lparr>chain_id = 11155420, chain_name = ''Optimism Sepolia''\<rparr>]"

text \<open>\<open>isProduction\<close> is the test \<^verbatim>\<open>process.env.NODE_ENV === 'production'\<close>.\<close>

definition getSupportedChains :: "bool \<Rightarrow> SupportedChain list" where
  "getSupportedChains isProduction =
     (if isProduction then SUPPORTED_CHAINS else SUPPORTED_CHAINS @ TESTNET_CHAINS)"

definition TOKEN_ADDRESSES :: "(int \<times> (string \<times> string) list) list" where
  "TOKEN_ADDRESSES =
     [(1, [(''USDC'', ''0xA0b86a33E6C17B8D8600Ff3C9C6d5f8a9A1F8C7E''),
           (''USDT'', ''0xdAC17F958D2ee523a2206206994597C13D831ec7''),
           (''WETH'', ''0xC02aaA39b223FE8D0A0e5C4F27eAD9083C756Cc2'')]),
      (8453, [(''USDC'', ''0x833589fCD6eDb6E08f4c7C32D4f71b54bdA02913''),
              (''WETH'', ''0x4200000000000000000000000000000000000006'')]),
      (10, [(''USDC'', ''0x7F5c764cBc14f9669B88837ca1490cCa17c31607''),
            (''USDT'', ''0x94b008aA00579c1307B0EF2c499aD98a8ce58e58''),
            (''WETH'', ''0x4200000000000000000000000000000000000006'')])]"

text \<open>
  The token tables are object literals. A read \<^verbatim>\<open>table[key]\<close> finds an own entry of the
  table, or else, for the names below, the member that every object inherits from
  \<^verbatim>\<open>Object.prototype\<close> (a function or an object, hence neither \<^verbatim>\<open>undefined\<close> nor falsy,
  and neither a string nor a number); for every other key it is \<^verbatim>\<open>undefined\<close>.
\<close>

datatype 'a property = Missing | Own 'a | Inherited

definition objectPrototypeNames :: "string list" where
  "objectPrototypeNames =
     [''constructor'', ''hasOwnProperty'', ''isPrototypeOf'', ''propertyIsEnumerable'',
      ''toLocaleString'', ''toString'', ''valueOf'', ''__proto__'', ''__defineGetter__'',
      ''__defineSetter__'', ''__lookupGetter__'', ''__lookupSetter__'']"

definition readProperty :: "(string \<times> 'a) list \<Rightarrow> string \<Rightarrow> 'a property" where
  "readProperty table key =
     (case map_of table key of
        Some v \<Rightarrow> Own v
      | None \<Rightarrow> if key \<in> set objectPrototypeNames then Inherited else Missing)"

text \<open>
  \<^verbatim>\<open>TOKEN_ADDRESSES[chainId]?.[symbol]\<close>: the outer key is a number, which is no inherited
  name.
\<close>

definition tokenAddressEntry :: "int \<Rightarrow> string \<Rightarrow> string property" where
  "tokenAddressEntry cid tok =
     (case map_of TOKEN_ADDRESSES cid of None \<Rightarrow> Missing | Some m \<Rightarrow> readProperty m tok)"

text \<open>\<^verbatim>\<open>getTokenAddress\<close> of lib/currency.ts.\<close>

definition getTokenAddress :: "string \<Rightarrow> int \<Rightarrow> string property" where
  "getTokenAddress tok cid = (if tok = ''ETH'' then Missing else tokenAddressEntry cid tok)"

definition TOKEN_DECIMALS :: "(string \<times> nat) list" where
  "TOKEN_DECIMALS =
     [(''ETH'', 18), (''WETH'', 18), (''USDC'', 6), (''USDT'', 6), (''DAI'', 18)]"

record TokenContract =
  address :: "string property"
  chainId :: int
  symbol :: string
  decimals :: "nat property"

text \<open>
  \<^verbatim>\<open>getTokenContract\<close>: \<^verbatim>\<open>null\<close> for \<^verbatim>\<open>ETH\<close>, for a falsy address (\<^verbatim>\<open>undefined\<close> or the
  empty string) and for \<^verbatim>\<open>decimals === undefined\<close>. The \<^verbatim>\<open>abi\<close> field of the result is
  the constant \<^verbatim>\<open>ERC20_ABI\<close> and is left out.
\<close>

definition getTokenContract :: "string \<Rightarrow> int \<Rightarrow> TokenContract option" where
  "getTokenContract tok cid =
     (if tok = ''ETH'' then None
      else
        let addr = tokenAddressEntry cid tok
        in if addr = Missing \<or> addr = Own [] then None
           else
             let d = readProperty TOKEN_DECIMALS tok
             in if d = Missing then None
                else Some \<lparr>address = addr, chainId = cid, symbol = tok, decimals = d\<rparr>)"

text \<open>\<^verbatim>\<open>getTokenDecimals\<close>: \<^verbatim>\<open>TOKEN_DECIMALS[symbol] || 18\<close>.\<close>

definition getTokenDecimals :: "string \<Rightarrow> nat property" where
  "getTokenDecimals tok =
     (case readProperty TOKEN_DECIMALS tok of
        Missing \<Rightarrow> Own 18
      | Own d \<Rightarrow> if d = 0 then Own 18 else Own d
      | Inherited \<Rightarrow> Inherited)"

text \<open>
  \<^verbatim>\<open>encodeTransfer\<close>:
  \<^verbatim>\<open>`0xa9059cbb${to.slice(2).padStart(64, '0')}${amount.toString(16).padStart(64, '0')}`\<close>.
  \<^verbatim>\<open>BigInt.prototype.toString(radix)\<close> writes a minus sign and then the digits of the
  absolute value, most significant first, in lower case (the digit table below serves the
  two radices the program uses, 10 and 16).
\<close>

definition digitChar :: "nat \<Rightarrow> char" where
  "digitChar d = (''0123456789abcdef'' ! d)"

fun natToString :: "nat \<Rightarrow> nat \<Rightarrow> string" where
  "natToString radix n =
     (if radix < 2 \<or> n < radix then [digitChar n]
      else natToString radix (n div radix) @ [digitChar (n mod radix)])"

declare natToString.simps [simp del]

definition bigintToString :: "nat \<Rightarrow> int \<Rightarrow> string" where
  "bigintToString radix v =
     (if v < 0 then CHR ''-'' # natToString radix (nat (- v)) else natToString radix (nat v))"

definition padStart :: "nat \<Rightarrow> char \<Rightarrow> string \<Rightarrow> string" where
  "padStart n c s = (if n \<le> length s then s else replicate (n - length s) c @ s)"

definition encodeTransfer :: "string \<Rightarrow> int \<Rightarrow> string" where
  "encodeTransfer to amount =
     ''0xa9059cbb'' @ padStart 64 CHR ''0'' (drop 2 to)
       @ padStart 64 CHR ''0'' (bigintToString 16 amount)"

text \<open>
  Reading a transfer call back. The repository has no decoder for call data; this one
  follows the layout the specification names (a 4-byte selector, the recipient
  left-padded to 32 bytes, the amount left-padded to 32 bytes) and is the reference the
  encoder is compared with.
\<close>

definition hexVal :: "char \<Rightarrow> nat option" where
  "hexVal c =
     (let n = (of_char c :: nat)
      in if 48 \<le> n \<and> n \<le> 57 then Some (n - 48)
         else if 97 \<le> n \<and> n \<le> 102 then Some (n - 87)
         else if 65 \<le> n \<and> n \<le> 70 then Some (n - 55)
         else None)"

fun parseHexFrom :: "nat \<Rightarrow> string \<Rightarrow> nat option" where
  "parseHexFrom acc [] = Some acc"
| "parseHexFrom acc (c # cs) =
     (case hexVal c of None \<Rightarrow> None | Some d \<Rightarrow> parseHexFrom (16 * acc + d) cs)"

definition decodeTransfer :: "string \<Rightarrow> (string \<times> int) option" where
  "decodeTransfer data =
     (if length data = 138 \<and> take 10 data = ''0xa9059cbb''
         \<and> take 24 (drop 10 data) = replicate 24 CHR ''0''
      then (case parseHexFrom 0 (take 64 (drop 74 data)) of
              None \<Rightarrow> None
            | Some v \<Rightarrow> Some (''0x'' @ take 40 (drop 34 data), int v))
      else None)"

section \<open>The transaction preparer (app/api/frame/prepare-tip/route.ts)\<close>

text \<open>
  The route's own schema:
  \<^verbatim>\<open>amount: z.string().refine((val) => !isNaN(parseFloat(val)) && parseFloat(val) > 0)\<close>,
  \<^verbatim>\<open>token: z.string().min(1)\<close>,
  \<^verbatim>\<open>recipient: z.string().regex(/^0x[a-fA-F0-9]{40}$/)\<close>.
\<close>

definition isHexDigit :: "char \<Rightarrow> bool" where
  "isHexDigit c = (hexVal c \<noteq> None)"

definition tipSchema_amount :: "string \<Rightarrow> bool" where
  "tipSchema_amount val = (\<not> isNaN (parseFloat val) \<and> js_greater (parseFloat val) (Finite 0))"

definition tipSchema_token :: "string \<Rightarrow> bool" where
  "tipSchema_token val = (1 \<le> length val)"

definition tipSchema_recipient :: "string \<Rightarrow> bool" where
  "tipSchema_recipient val =
     (take 2 val = ''0x'' \<and> length val = 42 \<and> list_all isHexDigit (drop 2 val))"

definition tipSchema :: "string \<Rightarrow> string \<Rightarrow> string \<Rightarrow> bool" where
  "tipSchema amount token recipient =
     (tipSchema_amount amount \<and> tipSchema_token token \<and> tipSchema_recipient recipient)"

text \<open>
  Modelled from the spec: \<^verbatim>\<open>ethers.parseUnits\<close> and \<^verbatim>\<open>ethers.parseEther\<close> belong to
  the ethers library, which is not part of the sources. The specification asks for exact
  integer scaling of the decimal string. The definition follows what the library does
  with a string: the text must be an optional minus sign, digits, an optional point and
  digits, with at least one digit; the fraction is padded with zeros to the number of
  decimals, and digits beyond that number must all be zero; the digits are then read as
  one integer, which must fit 512 bits signed. Every other input raises.
\<close>

datatype ethersError = InvalidArgument | NumericFault

definition parseUnits :: "string \<Rightarrow> nat \<Rightarrow> ethersError + int" where
  "parseUnits v unit =
     (let neg = (case v of [] \<Rightarrow> False | c # r \<Rightarrow> c = CHR ''-'');
          r0 = (if neg then tl v else v);
          whole = takeWhile isDigit r0;
          r1 = dropWhile isDigit r0;
          r2 = (case r1 of [] \<Rightarrow> [] | c # r \<Rightarrow> if c = CHR ''.'' then r else r1);
          decimal = takeWhile isDigit r2;
          r3 = dropWhile isDigit r2
      in if r3 \<noteq> [] \<or> (whole = [] \<and> decimal = []) then Inl InvalidArgument
         else
           let padded = decimal @ replicate (unit - length decimal) CHR ''0''
           in if \<not> list_all (\<lambda>c. c = CHR ''0'') (drop unit padded) then Inl NumericFault
              else
                let n = digitsVal (whole @ take unit padded);
                    x = (if neg then - n else n)
                in if x < - (2 ^ 511) \<or> 2 ^ 511 \<le> x then Inl NumericFault else Inr x)"

definition parseEther :: "string \<Rightarrow> ethersError + int" where
  "parseEther ether = parseUnits ether 18"

text \<open>\<^verbatim>\<open>String.prototype.toLowerCase\<close> on code units up to \<open>0xFF\<close>.\<close>

definition toLowerCase :: "string \<Rightarrow> string" where
  "toLowerCase s =
     map (\<lambda>c. let n = (of_char c :: nat)
              in if (65 \<le> n \<and> n \<le> 90) \<or> (192 \<le> n \<and> n \<le> 222 \<and> n \<noteq> 215)
                 then char_of (n + 32) else c) s"

text \<open>
  \<^verbatim>\<open>chains.find(chain => chain.name.toLowerCase() === 'base') || chains[0]\<close>.
\<close>

definition preferredChain :: "SupportedChain list \<Rightarrow> SupportedChain option" where
  "preferredChain available =
     (case find (\<lambda>c. toLowerCase (chain_name c) = ''base'') available of
        Some c \<Rightarrow> Some c
      | None \<Rightarrow> (case available of [] \<Rightarrow> None | c # _ \<Rightarrow> Some c))"

record transactionData =
  tx_to :: string
  tx_value :: string
  tx_data :: string

text \<open>
  The responses of \<^verbatim>\<open>POST\<close>, by status and body: 429; 400 with the text
  \<^verbatim>\<open>Invalid frame message\<close>; 400 with the JSON error \<^verbatim>\<open>Invalid parameters\<close>; 500 with
  the JSON error \<^verbatim>\<open>No supported chains available\<close>; 400 with the JSON error that names
  the token and the chain; 200 with the transaction frame (chain id and transaction
  parameters); and the 500 error frame of the \<^verbatim>\<open>catch\<close> block.
\<close>

datatype response =
    TooManyRequests
  | InvalidFrameMessage
  | InvalidParameters
  | NoSupportedChains
  | TokenNotSupported string
  | TransactionFrame int transactionData
  | ErrorFrame

text \<open>\<^verbatim>\<open>searchParams.get(key) || fallback\<close>.\<close>

definition orDefault :: "string option \<Rightarrow> string \<Rightarrow> string" where
  "orDefault p d = (case p of None \<Rightarrow> d | Some s \<Rightarrow> if s = [] then d else s)"

text \<open>
  The preparer proper: the part of \<^verbatim>\<open>POST\<close> from the extraction of the query parameters
  to the transaction data. \<open>encodeFunctionData\<close> stands for
  \<^verbatim>\<open>transferInterface.encodeFunctionData('transfer', [recipient, amount])\<close> of the ethers
  library (\<open>None\<close> when it throws); a throw anywhere ends in the error frame.
  \<^verbatim>\<open>ethers.parseUnits\<close> raises on a unit that is neither a string nor a number, which
  is the case of an inherited member. A contract address that is not a string does not
  appear in the serialised transaction; no token reaches that point.
\<close>

definition prepareTip ::
  "(string \<Rightarrow> int \<Rightarrow> string option) \<Rightarrow> bool \<Rightarrow> string option \<Rightarrow> string option \<Rightarrow> string option
     \<Rightarrow> response" where
  "prepareTip encodeFunctionData isProduction amountParam tokenParam recipientParam =
     (let amount = orDefault amountParam ''0.01'';
          token = orDefault tokenParam ''ETH'';
          recipient = orDefault recipientParam []
      in if \<not> tipSchema amount token recipient then InvalidParameters
         else
           (case preferredChain (getSupportedChains isProduction) of
              None \<Rightarrow> NoSupportedChains
            | Some preferred \<Rightarrow>
                (case parseEther amount of
                   Inl _ \<Rightarrow> ErrorFrame
                 | Inr amountInWei \<Rightarrow>
                     if token = ''ETH''
                     then TransactionFrame (chain_id preferred)
                            \<lparr>tx_to = recipient, tx_value = bigintToString 10 amountInWei,
                             tx_data = ''0x''\<rparr>
                     else
                       (case getTokenContract token (chain_id preferred) of
                          None \<Rightarrow>
                            TokenNotSupported
                              (''Token '' @ token @ '' not supported on '' @ chain_name preferred)
                        | Some tokenContract \<Rightarrow>
                            (case getTokenDecimals token of
                               Own d \<Rightarrow>
                                 (case parseUnits amount d of
                                    Inl _ \<Rightarrow> ErrorFrame
                                  | Inr tokenAmount \<Rightarrow>
                                      (case encodeFunctionData recipient tokenAmount of
                                         None \<Rightarrow> ErrorFrame
                                       | Some transferData \<Rightarrow>
                                           TransactionFrame (chain_id preferred)
                                             \<lparr>tx_to = (case address tokenContract of
                                                         Own a \<Rightarrow> a | _ \<Rightarrow> []),
                                              tx_value = ''0'', tx_data = transferData\<rparr>))
                             | _ \<Rightarrow> ErrorFrame)))))"

text \<open>
  \<^verbatim>\<open>POST\<close>: the rate limiter (keyed by \<^verbatim>\<open>request.ip ?? 'anonymous'\<close>), then the body
  (\<open>None\<close> when \<^verbatim>\<open>request.json()\<close> throws) and its validation, then the preparer.
\<close>

definition POST ::
  "(string \<Rightarrow> int \<Rightarrow> string option) \<Rightarrow> bool \<Rightarrow> InMemoryRateLimiter \<Rightarrow> int \<Rightarrow> bool
     \<Rightarrow> string option \<Rightarrow> jsvalue option \<Rightarrow> bool
     \<Rightarrow> string option \<Rightarrow> string option \<Rightarrow> string option
     \<Rightarrow> response \<times> InMemoryRateLimiter" where
  "POST encodeFunctionData isProduction rateLimit now sweep ip body urlParses
        amountParam tokenParam recipientParam =
     (let identifier = (case ip of None \<Rightarrow> ''anonymous'' | Some a \<Rightarrow> a);
          (r, rateLimit') = limit rateLimit identifier now sweep
      in if \<not> success r then (TooManyRequests, rateLimit')
         else
           (case body of
              None \<Rightarrow> (ErrorFrame, rateLimit')
            | Some message \<Rightarrow>
                if \<not> validateFrameMessage urlParses message then (InvalidFrameMessage, rateLimit')
                else (prepareTip encodeFunctionData isProduction amountParam tokenParam
                        recipientParam, rateLimit')))"

text \<open>
  A decimal string (digits, an optional point, digits) and the value it denotes, for the
  statement of exact scaling.
\<close>

definition decimalString :: "string \<Rightarrow> bool \<Rightarrow> string \<Rightarrow> string" where
  "decimalString whole point fraction = whole @ (if point then CHR ''.'' # fraction else fraction)"

definition decimalValue :: "string \<Rightarrow> string \<Rightarrow> rat" where
  "decimalValue whole fraction =
     of_int (digitsVal whole) + of_int (digitsVal fraction) / 10 ^ length fraction"

section \<open>Properties of the rate limiter\<close>

lemma limit_fresh:
  assumes "requests rl identifier = None \<or> (\<exists>e. requests rl identifier = Some e \<and> now > resetTime e)"
  shows "fst (limit rl identifier now sweep) =
           \<lparr>success = True, limit_max = maxRequests rl, remaining = maxRequests rl - 1,
            reset = now + windowMs rl\<rparr>"
    and "requests (snd (limit rl identifier now sweep)) identifier =
           Some \<lparr>count = 1, resetTime = now + windowMs rl\<rparr>"
    and "maxRequests (snd (limit rl identifier now sweep)) = maxRequests rl"
    and "windowMs (snd (limit rl identifier now sweep)) = windowMs rl"
  using assms by (auto simp: limit_def startWindow_def cleanup_def Let_def)

lemma limit_within:
  assumes "requests rl identifier = Some e" "now \<le> resetTime e"
  shows "fst (limit rl identifier now sweep) =
           (if count e + 1 > maxRequests rl
            then \<lparr>success = False, limit_max = maxRequests rl, remaining = 0, reset = resetTime e\<rparr>
            else \<lparr>success = True, limit_max = maxRequests rl,
                  remaining = maxRequests rl - (count e + 1), reset = resetTime e\<rparr>)"
    and "requests (snd (limit rl identifier now sweep)) identifier =
           Some (e\<lparr>count := count e + 1\<rparr>)"
    and "maxRequests (snd (limit rl identifier now sweep)) = maxRequests rl"
    and "windowMs (snd (limit rl identifier now sweep)) = windowMs rl"
  using assms by (auto simp: limit_def increment_def cleanup_def Let_def)

lemma limitAll_within:
  assumes "requests rl identifier = Some e" "\<forall>c \<in> set calls. fst c \<le> resetTime e"
  shows "length (fst (limitAll rl identifier calls)) = length calls
       \<and> (\<forall>k < length calls.
             fst (limitAll rl identifier calls) ! k =
               (if count e + int k + 1 > maxRequests rl
                then \<lparr>success = False, limit_max = maxRequests rl, remaining = 0, reset = resetTime e\<rparr>
                else \<lparr>success = True, limit_max = maxRequests rl,
                      remaining = maxRequests rl - (count e + int k + 1), reset = resetTime e\<rparr>))
       \<and> requests (snd (limitAll rl identifier calls)) identifier =
             Some (e\<lparr>count := count e + int (length calls)\<rparr>)
       \<and> maxRequests (snd (limitAll rl identifier calls)) = maxRequests rl
       \<and> windowMs (snd (limitAll rl identifier calls)) = windowMs rl"
  using assms
proof (induction calls arbitrary: rl e)
  case Nil
  then show ?case by simp
next
  case (Cons c calls)
  obtain now sweep where c: "c = (now, sweep)" by (cases c)
  obtain r rl1 where l: "limit rl identifier now sweep = (r, rl1)" by (cases "limit rl identifier now sweep")
  have now: "now \<le> resetTime e" using Cons.prems c by simp
  note w = limit_within[OF Cons.prems(1) now, of sweep, unfolded l fst_conv snd_conv]
  let ?e = "e\<lparr>count := count e + 1\<rparr>"
  have ih: "length (fst (limitAll rl1 identifier calls)) = length calls
       \<and> (\<forall>k < length calls.
             fst (limitAll rl1 identifier calls) ! k =
               (if count ?e + int k + 1 > maxRequests rl1
                then \<lparr>success = False, limit_max = maxRequests rl1, remaining = 0, reset = resetTime ?e\<rparr>
                else \<lparr>success = True, limit_max = maxRequests rl1,
                      remaining = maxRequests rl1 - (count ?e + int k + 1), reset = resetTime ?e\<rparr>))
       \<and> requests (snd (limitAll rl1 identifier calls)) identifier =
             Some (?e\<lparr>count := count ?e + int (length calls)\<rparr>)
       \<and> maxRequests (snd (limitAll rl1 identifier calls)) = maxRequests rl1
       \<and> windowMs (snd (limitAll rl1 identifier calls)) = windowMs rl1"
    by (rule Cons.IH) (use w Cons.prems in auto)
  obtain rs rl2 where la: "limitAll rl1 identifier calls = (rs, rl2)" by (cases "limitAll rl1 identifier calls")
  have unf: "limitAll rl identifier (c # calls) = (r # rs, rl2)"
    by (simp add: c l la)
  show ?case
    unfolding unf fst_conv snd_conv
    using ih[unfolded la fst_conv snd_conv] w
    by (auto simp: nth_Cons' algebra_simps)
qed


text \<open>
  Claim C10. The first request of a fresh or expired window is allowed whatever the
  configured limit is: with no record, or with a record whose \<open>resetTime\<close> lies strictly
  before \<open>now\<close>, \<open>limit\<close> answers \<open>success = true\<close> and
  \<open>remaining = maxRequests - 1\<close> and stores a record with \<open>count = 1\<close>; the comparison
  of the count with \<open>maxRequests\<close> is not on this path. With \<open>maxRequests = 0\<close> the
  answer carries \<open>remaining = -1\<close> (the witness).
\<close>

theorem C10_first_request_always_allowed:
  assumes "requests rl identifier = None \<or>
           (\<exists>e. requests rl identifier = Some e \<and> now > resetTime e)"
  shows "success (fst (limit rl identifier now sweep))
       \<and> remaining (fst (limit rl identifier now sweep)) = maxRequests rl - 1
       \<and> requests (snd (limit rl identifier now sweep)) identifier =
             Some \<lparr>count = 1, resetTime = now + windowMs rl\<rparr>"
  using limit_fresh(1,2)[OF assms, of sweep] by simp

theorem C10_witness:
  "requests (newLimiter 0 60000) ''10.0.0.1'' = None
 \<and> success (fst (limit (newLimiter 0 60000) ''10.0.0.1'' 5 False))
 \<and> remaining (fst (limit (newLimiter 0 60000) ''10.0.0.1'' 5 False)) = - 1
 \<and> requests (snd (limit (newLimiter 0 60000) ''10.0.0.1'' 5 False)) ''10.0.0.1'' =
       Some \<lparr>count = 1, resetTime = 60005\<rparr>"
proof -
  have h: "requests (newLimiter 0 60000) ''10.0.0.1'' = None \<or>
           (\<exists>e. requests (newLimiter 0 60000) ''10.0.0.1'' = Some e \<and> 5 > resetTime e)"
    by (simp add: newLimiter_def)
  show ?thesis
    using C10_first_request_always_allowed[OF h, of False] by (simp add: newLimiter_def)
qed

text \<open>
  Claim C1 speaks of every configuration. With \<open>maxRequests = 0\<close> the (N+1)-th call of a
  window is its first call, and that call is accepted.
\<close>

theorem C1_counterexample:
  "success (fst (limit (newLimiter 0 60000) ''10.0.0.1'' 5 False))
 \<and> remaining (fst (limit (newLimiter 0 60000) ''10.0.0.1'' 5 False)) = - 1"
  by (simp add: newLimiter_def limit_def startWindow_def)

text \<open>
  Claim C1, for \<open>maxRequests = N \<ge> 1\<close>. The first call of an identifier without a record
  is accepted with \<open>remaining = N - 1\<close> and creates the record \<open>(count = 1,
  resetTime = t1 + W)\<close>. Each of the following calls that does not come after
  \<open>t1 + W\<close> increments the count; calls 2 to N are accepted with \<open>remaining = N - k\<close>
  for the k-th call, and call N + 1 is refused with \<open>remaining = 0\<close>. The first call
  after \<open>t1 + W\<close> is accepted again with \<open>remaining = N - 1\<close>.
\<close>

theorem C1_fixed_window:
  assumes fresh: "requests rl identifier = None"
    and N: "maxRequests rl = N" and W: "windowMs rl = W"
    and pos: "1 \<le> N"
    and first: "limit rl identifier t1 s1 = (r1, rl1)"
    and len: "int (length calls) = N"
    and inwin: "\<forall>c \<in> set calls. fst c \<le> t1 + W"
    and rest: "limitAll rl1 identifier calls = (rs, rl2)"
    and later: "t1 + W < t2"
  shows "success r1 \<and> remaining r1 = N - 1
       \<and> requests rl1 identifier = Some \<lparr>count = 1, resetTime = t1 + W\<rparr>
       \<and> (\<forall>k < length calls.
             requests (snd (limitAll rl1 identifier (take (Suc k) calls))) identifier =
               Some \<lparr>count = int k + 2, resetTime = t1 + W\<rparr>)
       \<and> length rs = length calls
       \<and> (\<forall>k < length calls - 1. success (rs ! k) \<and> remaining (rs ! k) = N - (int k + 2))
       \<and> \<not> success (last rs) \<and> remaining (last rs) = 0
       \<and> success (fst (limit rl2 identifier t2 s2))
       \<and> remaining (fst (limit rl2 identifier t2 s2)) = N - 1"
proof -
  let ?e = "\<lparr>count = 1, resetTime = t1 + W\<rparr>"
  have f: "requests rl identifier = None \<or>
           (\<exists>e. requests rl identifier = Some e \<and> t1 > resetTime e)"
    using fresh by simp
  note a = limit_fresh[OF f, of s1, unfolded first fst_conv snd_conv N W]
  have r1: "success r1 \<and> remaining r1 = N - 1" using a(1) by simp
  have e1: "requests rl1 identifier = Some ?e" using a(2) .
  have cfg1: "maxRequests rl1 = N" "windowMs rl1 = W" using a(3,4) by simp_all
  have inw: "\<forall>c \<in> set calls. fst c \<le> resetTime ?e" using inwin by simp
  note b = limitAll_within[OF e1 inw, unfolded rest fst_conv snd_conv cfg1]
  have lenrs: "length rs = length calls" using b by simp
  have inc: "requests (snd (limitAll rl1 identifier (take (Suc k) calls))) identifier =
               Some \<lparr>count = int k + 2, resetTime = t1 + W\<rparr>" if "k < length calls" for k
  proof -
    have "\<forall>c \<in> set (take (Suc k) calls). fst c \<le> resetTime ?e"
      using inw by (meson in_set_takeD)
    from limitAll_within[OF e1 this] that show ?thesis
      by (simp add: min_def)
  qed
  have acc: "success (rs ! k) \<and> remaining (rs ! k) = N - (int k + 2)" if "k < length calls - 1" for k
  proof -
    have "k < length calls" using that by simp
    moreover have "\<not> 1 + int k + 1 > N" using that len by linarith
    ultimately show ?thesis using b by (simp add: algebra_simps)
  qed
  have ne: "rs \<noteq> []" using lenrs len pos by auto
  have lastk: "last rs = rs ! (length calls - 1)"
    using ne lenrs by (simp add: last_conv_nth)
  have "length calls - 1 < length calls" using len pos by simp
  moreover have "1 + int (length calls - 1) + 1 > N" using len pos by simp
  ultimately have rej: "\<not> success (last rs) \<and> remaining (last rs) = 0"
    using b lastk by simp
  have e2: "requests rl2 identifier = Some (?e\<lparr>count := count ?e + int (length calls)\<rparr>)"
    and cfg2: "maxRequests rl2 = N" "windowMs rl2 = W"
    using b by simp_all
  have g: "requests rl2 identifier = None \<or>
           (\<exists>e. requests rl2 identifier = Some e \<and> t2 > resetTime e)"
    using e2 later by simp
  have again: "success (fst (limit rl2 identifier t2 s2))
       \<and> remaining (fst (limit rl2 identifier t2 s2)) = N - 1"
    using limit_fresh(1)[OF g, of s2] cfg2 by simp
  show ?thesis using r1 e1 inc lenrs acc rej again by blast
qed


theorem C1_witness:
  "success (fst (limit (newLimiter 2 1000) ''u'' 0 False))
 \<and> remaining (fst (limit (newLimiter 2 1000) ''u'' 0 False)) = 1
 \<and> map success (fst (limitAll (snd (limit (newLimiter 2 1000) ''u'' 0 False)) ''u''
        [(10, False), (1000, True)])) = [True, False]
 \<and> map remaining (fst (limitAll (snd (limit (newLimiter 2 1000) ''u'' 0 False)) ''u''
        [(10, False), (1000, True)])) = [0, 0]
 \<and> success (fst (limit (snd (limitAll (snd (limit (newLimiter 2 1000) ''u'' 0 False)) ''u''
        [(10, False), (1000, True)])) ''u'' 1001 False))
 \<and> remaining (fst (limit (snd (limitAll (snd (limit (newLimiter 2 1000) ''u'' 0 False)) ''u''
        [(10, False), (1000, True)])) ''u'' 1001 False)) = 1"
proof -
  let ?rl = "newLimiter 2 1000"
  let ?calls = "[(10, False), (1000, True)] :: (int \<times> bool) list"
  let ?p = "limit ?rl ''u'' 0 False"
  let ?q = "limitAll (snd ?p) ''u'' ?calls"
  have h1: "requests ?rl ''u'' = None" by (simp add: newLimiter_def)
  have h2: "maxRequests ?rl = 2" "windowMs ?rl = 1000" by (simp_all add: newLimiter_def)
  have h3: "(1::int) \<le> 2" by simp
  have h4: "?p = (fst ?p, snd ?p)" by simp
  have h5: "int (length ?calls) = 2" by simp
  have h6: "\<forall>c \<in> set ?calls. fst c \<le> 0 + 1000" by simp
  have h7: "?q = (fst ?q, snd ?q)" by simp
  have h8: "(0::int) + 1000 < 1001" by simp
  note t = C1_fixed_window[OF h1 h2 h3 h4 h5 h6 h7 h8, of False]
  have first: "success (fst ?p) \<and> remaining (fst ?p) = 2 - 1" using t by blast
  have l: "length (fst ?q) = length ?calls" using t by blast
  have a: "\<forall>k < length ?calls - 1. success (fst ?q ! k) \<and> remaining (fst ?q ! k) = 2 - (int k + 2)"
    using t by blast
  have b: "\<not> success (last (fst ?q)) \<and> remaining (last (fst ?q)) = 0" using t by blast
  have c: "success (fst (limit (snd ?q) ''u'' 1001 False))
         \<and> remaining (fst (limit (snd ?q) ''u'' 1001 False)) = 2 - 1" using t by blast
  have l2: "length (fst ?q) = Suc (Suc 0)" using l by simp
  then obtain x y where xy: "fst ?q = [x, y]"
    by (auto simp: length_Suc_conv)
  have a0: "success (fst ?q ! 0) \<and> remaining (fst ?q ! 0) = 0" using a by simp
  have m: "map success (fst ?q) = [True, False]" "map remaining (fst ?q) = [0, 0]"
    using a0 b unfolding xy by simp_all
  show ?thesis using first m c by simp
qed

text \<open>
  Claim C2 says that a call arriving exactly at \<open>resetTime\<close> opens a new window and is
  allowed. With \<open>maxRequests = 1\<close> and a window opened at time 0 for 1000 ms, the call at
  time 1000 is counted in the old window (count 2) and refused.
\<close>

theorem C2_counterexample:
  "\<not> success (fst (limit (snd (limit (newLimiter 1 1000) ''u'' 0 False)) ''u'' 1000 False))
 \<and> requests (snd (limit (snd (limit (newLimiter 1 1000) ''u'' 0 False)) ''u'' 1000 False)) ''u''
      = Some \<lparr>count = 2, resetTime = 1000\<rparr>"
  by (simp add: newLimiter_def limit_def startWindow_def increment_def)

text \<open>
  Claim C2, as the code has it: the window is reset when \<open>now > resetTime\<close>. A call at
  \<open>now = resetTime\<close> still belongs to the running window: the count is incremented,
  \<open>resetTime\<close> is kept, and the call is allowed exactly when the incremented count does
  not exceed \<open>maxRequests\<close>. A call with \<open>now > resetTime\<close> opens a new window with
  \<open>count = 1\<close> and is allowed.
\<close>

theorem C2_boundary_still_in_window:
  assumes "requests rl identifier = Some e"
  shows "(now = resetTime e \<longrightarrow>
            requests (snd (limit rl identifier now sweep)) identifier = Some (e\<lparr>count := count e + 1\<rparr>)
          \<and> success (fst (limit rl identifier now sweep)) = (count e + 1 \<le> maxRequests rl)
          \<and> reset (fst (limit rl identifier now sweep)) = resetTime e)
       \<and> (now > resetTime e \<longrightarrow>
            requests (snd (limit rl identifier now sweep)) identifier =
              Some \<lparr>count = 1, resetTime = now + windowMs rl\<rparr>
          \<and> success (fst (limit rl identifier now sweep))
          \<and> reset (fst (limit rl identifier now sweep)) = now + windowMs rl)"
proof (intro conjI impI)
  assume n: "now = resetTime e"
  then have le: "now \<le> resetTime e" by simp
  note w = limit_within[OF assms le, of sweep]
  show "requests (snd (limit rl identifier now sweep)) identifier = Some (e\<lparr>count := count e + 1\<rparr>)"
    using w(2) .
  show "success (fst (limit rl identifier now sweep)) = (count e + 1 \<le> maxRequests rl)"
    using w(1) by auto
  show "reset (fst (limit rl identifier now sweep)) = resetTime e"
    using w(1) by auto
next
  assume n: "now > resetTime e"
  then have f: "requests rl identifier = None \<or>
           (\<exists>e. requests rl identifier = Some e \<and> now > resetTime e)"
    using assms by simp
  note w = limit_fresh[OF f, of sweep]
  show "requests (snd (limit rl identifier now sweep)) identifier =
              Some \<lparr>count = 1, resetTime = now + windowMs rl\<rparr>" using w(2) .
  show "success (fst (limit rl identifier now sweep))" using w(1) by simp
  show "reset (fst (limit rl identifier now sweep)) = now + windowMs rl" using w(1) by simp
qed

theorem C2_witness:
  "requests (snd (limit (newLimiter 5 1000) ''u'' 0 False)) ''u'' = Some \<lparr>count = 1, resetTime = 1000\<rparr>
 \<and> requests (snd (limit (snd (limit (newLimiter 5 1000) ''u'' 0 False)) ''u'' 1000 False)) ''u''
      = Some \<lparr>count = 2, resetTime = 1000\<rparr>
 \<and> success (fst (limit (snd (limit (newLimiter 5 1000) ''u'' 0 False)) ''u'' 1000 False))
 \<and> reset (fst (limit (snd (limit (newLimiter 5 1000) ''u'' 0 False)) ''u'' 1000 False)) = 1000
 \<and> requests (snd (limit (snd (limit (newLimiter 5 1000) ''u'' 0 False)) ''u'' 1001 False)) ''u''
      = Some \<lparr>count = 1, resetTime = 2001\<rparr>"
proof -
  let ?rl = "snd (limit (newLimiter 5 1000) ''u'' 0 False)"
  have h: "requests ?rl ''u'' = Some \<lparr>count = 1, resetTime = 1000\<rparr>"
    by (simp add: newLimiter_def limit_def startWindow_def)
  have c: "maxRequests ?rl = 5" "windowMs ?rl = 1000"
    by (simp_all add: newLimiter_def limit_def startWindow_def)
  show ?thesis
    using h C2_boundary_still_in_window[OF h, of 1000 False]
          C2_boundary_still_in_window[OF h, of 1001 False] c
    by simp
qed


section \<open>Properties of the validators\<close>

subsection \<open>Amounts\<close>

text \<open>
  Evaluation of \<open>parseFloat\<close> on concrete strings, with values of binary64 that are
  known independently: 0.1 is \<open>3602879701896397 / 2 ^ 55\<close>, and \<open>2 ^ 53 + 1\<close> is a tie
  that goes to the even neighbour \<open>2 ^ 53\<close>.
\<close>

lemmas parseFloat_eval =
  parseFloat_def strDecimalLiteral_def exponentPart_def isWhiteSpace_def isDigit_def
  digitsVal_def digitVal_def toDouble_def floorLog2_def compute_bitlen roundHalfEven_def
  pow2_def Let_def

lemma parseFloat_known_values:
  "parseFloat ''0.1'' = Finite (3602879701896397 / 36028797018963968)"
  "parseFloat ''9007199254740993'' = Finite 9007199254740992"
  "parseFloat ''  -12.5e-1px'' = Finite (- (5 / 4))"
  "parseFloat ''abc'' = NaN"
  by (simp_all add: parseFloat_eval)

lemma parseFloat_boundary_amounts:
  "parseFloat ''1000000.000000000000000001'' = Finite 1000000"
  "parseFloat ''1000000'' = Finite 1000000"
  "parseFloat ''0'' = Finite 0"
  by (simp_all add: parseFloat_eval)

text \<open>
  Claim C3. The amount validator accepts \<open>1000000.000000000000000001\<close>: \<^verbatim>\<open>parseFloat\<close>
  rounds it to the double 1000000, which is not above the maximum, and its fraction has
  exactly 18 digits. It accepts \<open>1000000\<close> and rejects \<open>0\<close>.
\<close>

theorem C3_boundary_amounts:
  "isValid (validateAmount ''1000000.000000000000000001'')
 \<and> isValid (validateAmount ''1000000'')
 \<and> \<not> isValid (validateAmount ''0'')"
  by (simp add: validateAmount_def parseFloat_boundary_amounts isNaN_def js_less_eq_def
      js_greater_def)

subsection \<open>Frame messages\<close>

text \<open>
  Claim C4 says that every \<open>buttonIndex\<close> that is not an integer from 1 to 4 is rejected.
  The message below carries \<open>buttonIndex = 2.5\<close> and is accepted.
\<close>

theorem C4_counterexample:
  "validateFrameMessage True
     (JObject [(''fid'', JNumber (Finite 7)), (''url'', JString ''https://example.com/frame''),
               (''messageHash'', JString ''0x0123456789''), (''timestamp'', JNumber (Finite 1700000000)),
               (''network'', JNumber (Finite 1)), (''buttonIndex'', JNumber (Finite (5 / 2)))])"
  by (simp add: validateFrameMessage_def requiredFields_def js_less_eq_def js_greater_def)

lemma js_number_cases:
  "\<not> js_less n (Finite 1) \<Longrightarrow> \<not> js_greater n (Finite 4) \<Longrightarrow>
     n = NaN \<or> (\<exists>q. n = Finite q \<and> 1 \<le> q \<and> q \<le> 4)"
  by (cases n) (auto simp: js_greater_def)

lemma typeof_number: "typeof v = ''number'' \<Longrightarrow> \<exists>n. v = JNumber n"
  by (cases v) auto

text \<open>
  Claim C4, as the code has it. A message that carries \<open>buttonIndex\<close> is accepted only
  if the field is a number that is neither below 1 nor above 4: a finite number in the
  closed interval from 1 to 4 (an integer or not), or \<open>NaN\<close>. Whatever the other fields
  are, every other \<open>buttonIndex\<close> (not a number, below 1, above 4, such as 5) is
  rejected.
\<close>

theorem C4_button_index_range:
  assumes "hasProperty ''buttonIndex'' message"
  shows "validateFrameMessage urlParses message \<longrightarrow>
           (\<exists>n. getProperty message ''buttonIndex'' = JNumber n
                \<and> (n = NaN \<or> (\<exists>q. n = Finite q \<and> 1 \<le> q \<and> q \<le> 4)))"
proof
  assume v: "validateFrameMessage urlParses message"
  let ?b = "getProperty message ''buttonIndex''"
  have "\<not> (typeof ?b \<noteq> ''number'' \<or> js_less (numberOf ?b) (Finite 1)
            \<or> js_greater (numberOf ?b) (Finite 4))"
    using v assms unfolding validateFrameMessage_def by (auto split: if_splits)
  then have t: "typeof ?b = ''number''" and lo: "\<not> js_less (numberOf ?b) (Finite 1)"
    and hi: "\<not> js_greater (numberOf ?b) (Finite 4)" by auto
  from typeof_number[OF t] obtain n where n: "?b = JNumber n" ..
  with lo hi js_number_cases[of n] show "\<exists>n. ?b = JNumber n
                \<and> (n = NaN \<or> (\<exists>q. n = Finite q \<and> 1 \<le> q \<and> q \<le> 4))"
    by simp
qed

theorem C4_witness:
  "validateFrameMessage True
     (JObject [(''fid'', JNumber (Finite 7)), (''url'', JString ''https://example.com/frame''),
               (''messageHash'', JString ''0x0123456789''), (''timestamp'', JNumber (Finite 1700000000)),
               (''network'', JNumber (Finite 1)), (''buttonIndex'', JNumber (Finite 2))])
 \<and> \<not> validateFrameMessage True
     (JObject [(''fid'', JNumber (Finite 7)), (''url'', JString ''https://example.com/frame''),
               (''messageHash'', JString ''0x0123456789''), (''timestamp'', JNumber (Finite 1700000000)),
               (''network'', JNumber (Finite 1)), (''buttonIndex'', JNumber (Finite 5))])"
proof -
  let ?m = "\<lambda>b. JObject [(''fid'', JNumber (Finite 7)), (''url'', JString ''https://example.com/frame''),
               (''messageHash'', JString ''0x0123456789''), (''timestamp'', JNumber (Finite 1700000000)),
               (''network'', JNumber (Finite 1)), (''buttonIndex'', JNumber (Finite b))]"
  have ok: "validateFrameMessage True (?m 2)"
    by (simp add: validateFrameMessage_def requiredFields_def js_less_eq_def js_greater_def)
  have p: "hasProperty ''buttonIndex'' (?m 5)" by simp
  have g: "getProperty (?m 5) ''buttonIndex'' = JNumber (Finite 5)" by simp
  have "\<not> validateFrameMessage True (?m 5)"
    using C4_button_index_range[OF p, of True] unfolding g by auto
  with ok show ?thesis by simp
qed

subsection \<open>Recipients\<close>

text \<open>
  Claim C5 says that a \<open>name.eth\<close> recipient passes the preparer's validation. The name
  \<open>vitalik.eth\<close> matches the ENS pattern and fails the preparer's recipient rule.
\<close>

theorem C5_counterexample:
  "validateENS ''vitalik.eth'' \<and> \<not> tipSchema_recipient ''vitalik.eth''"
  by (simp add: validateENS_def tipSchema_recipient_def isEnsChar_def isAsciiLetter_def isDigit_def)

lemma isHexDigit_dot: "\<not> isHexDigit CHR ''.''"
  by (simp add: isHexDigit_def hexVal_def)

lemma ens_not_address:
  assumes "validateENS r"
  shows "\<not> tipSchema_recipient r"
proof
  assume a: "tipSchema_recipient r"
  then have len: "length r = 42" and hex: "list_all isHexDigit (drop 2 r)"
    by (simp_all add: tipSchema_recipient_def)
  from assms have "drop (length r - 4) r = ''.eth''" by (simp add: validateENS_def)
  then have "drop 38 r = ''.eth''" using len by simp
  then have "drop 36 (drop 2 r) = ''.eth''" by simp
  then have "CHR ''.'' \<in> set (drop 36 (drop 2 r))" by simp
  then have "CHR ''.'' \<in> set (drop 2 r)" by (rule in_set_dropD)
  then have "isHexDigit CHR ''.''" using hex by (simp add: list_all_iff)
  then show False using isHexDigit_dot by simp
qed

text \<open>
  Claim C5, as the code has it. The preparer's schema accepts a recipient exactly when it
  is \<open>0x\<close> followed by 40 hexadecimal digits. A name that matches the \<open>name.eth\<close>
  pattern is accepted by the recipient rule of \<open>tipRequestSchema\<close> and rejected by the
  preparer.
\<close>

theorem C5_prepare_accepts_addresses_only:
  "(tipSchema_recipient r \<longleftrightarrow> (\<exists>hs. r = ''0x'' @ hs \<and> length hs = 40 \<and> list_all isHexDigit hs))
 \<and> (validateENS r \<longrightarrow> \<not> tipSchema_recipient r \<and> tipRequestSchema_recipient isAddress r)"
proof (intro conjI impI)
  show "tipSchema_recipient r \<longleftrightarrow> (\<exists>hs. r = ''0x'' @ hs \<and> length hs = 40 \<and> list_all isHexDigit hs)"
  proof
    assume a: "tipSchema_recipient r"
    then have t: "take 2 r = ''0x''" and l: "length (drop 2 r) = 40"
      and h: "list_all isHexDigit (drop 2 r)"
      by (simp_all add: tipSchema_recipient_def)
    have "take 2 r @ drop 2 r = r" by (rule append_take_drop_id)
    then have "r = ''0x'' @ drop 2 r" unfolding t by (rule sym)
    with l h show "\<exists>hs. r = ''0x'' @ hs \<and> length hs = 40 \<and> list_all isHexDigit hs"
      by blast
  next
    assume "\<exists>hs. r = ''0x'' @ hs \<and> length hs = 40 \<and> list_all isHexDigit hs"
    then show "tipSchema_recipient r"
      by (auto simp: tipSchema_recipient_def)
  qed
next
  assume "validateENS r"
  then show "\<not> tipSchema_recipient r" by (rule ens_not_address)
next
  assume "validateENS r"
  then show "tipRequestSchema_recipient isAddress r"
    by (auto simp: tipRequestSchema_recipient_def validateENS_def)
qed

theorem C5_witness:
  "tipSchema_recipient ''0x0000000000000000000000000000000000000001''
 \<and> validateENS ''vitalik.eth''
 \<and> \<not> tipSchema_recipient ''vitalik.eth''
 \<and> tipRequestSchema_recipient (\<lambda>a. False) ''vitalik.eth''"
proof -
  have e: "validateENS ''vitalik.eth''"
    by (simp add: validateENS_def isEnsChar_def isAsciiLetter_def isDigit_def)
  have h: "\<exists>hs. ''0x0000000000000000000000000000000000000001'' = ''0x'' @ hs \<and> length hs = 40
             \<and> list_all isHexDigit hs"
    by (simp add: isHexDigit_def hexVal_def)
  show ?thesis
    using e h C5_prepare_accepts_addresses_only[of "''0x0000000000000000000000000000000000000001''"]
      C5_prepare_accepts_addresses_only[of "''vitalik.eth''" "\<lambda>a. False"]
    by blast
qed

subsection \<open>The input sanitizer\<close>

text \<open>
  Claim C9 says that \<open>sanitizeInput\<close> is idempotent. On the input \<open>< a\<close> the first
  application leaves a leading space, which the second removes.
\<close>

theorem C9_counterexample:
  "sanitizeInput ''< a'' = '' a'' \<and> sanitizeInput (sanitizeInput ''< a'') = ''a''"
  by (simp add: sanitizeInput_def trim_def isWhiteSpace_def)

lemma set_trim: "set (trim s) \<subseteq> set s"
proof -
  have "set (trim s) = set (dropWhile isWhiteSpace (rev (dropWhile isWhiteSpace s)))"
    by (simp add: trim_def)
  also have "\<dots> \<subseteq> set (rev (dropWhile isWhiteSpace s))"
    by (auto dest: set_dropWhileD)
  also have "\<dots> \<subseteq> set s"
    by (auto dest: set_dropWhileD)
  finally show ?thesis .
qed

lemma length_trim: "length (trim s) \<le> length s"
proof -
  have "length (trim s) = length (dropWhile isWhiteSpace (rev (dropWhile isWhiteSpace s)))"
    by (simp add: trim_def)
  also have "\<dots> \<le> length (rev (dropWhile isWhiteSpace s))"
    by (rule length_dropWhile_le)
  also have "\<dots> = length (dropWhile isWhiteSpace s)" by simp
  also have "\<dots> \<le> length s" by (rule length_dropWhile_le)
  finally show ?thesis .
qed

text \<open>
  Claim C9, as the code has it. The result of \<open>sanitizeInput\<close> has no \<open><\<close> and no
  \<open>>\<close> and at most 1000 characters, but it need not be trimmed: removing the angle
  brackets or cutting at 1000 characters can leave white space at either end. A second
  application therefore only trims the first result:
  \<open>sanitizeInput (sanitizeInput s) = trim (sanitizeInput s)\<close>.
\<close>

theorem C9_sanitize_twice:
  "sanitizeInput (sanitizeInput s) = trim (sanitizeInput s)
 \<and> length (sanitizeInput s) \<le> 1000
 \<and> CHR ''<'' \<notin> set (sanitizeInput s)
 \<and> CHR ''>'' \<notin> set (sanitizeInput s)"
proof -
  let ?keep = "\<lambda>c. c \<noteq> CHR ''<'' \<and> c \<noteq> CHR ''>''"
  let ?r = "sanitizeInput s"
  have len: "length ?r \<le> 1000" by (simp add: sanitizeInput_def)
  have free: "\<forall>c \<in> set ?r. ?keep c"
    unfolding sanitizeInput_def by (auto dest: in_set_takeD)
  have "\<forall>c \<in> set (trim ?r). ?keep c" using free set_trim[of ?r] by blast
  then have "filter ?keep (trim ?r) = trim ?r" by (simp add: filter_id_conv)
  moreover have "length (trim ?r) \<le> 1000" using length_trim[of ?r] len by linarith
  ultimately have "sanitizeInput ?r = trim ?r"
    by (simp add: sanitizeInput_def[of ?r])
  then show ?thesis using len free by auto
qed

theorem C9_witness:
  "sanitizeInput (sanitizeInput ''  <b>tip</b> '') = ''btip/b''
 \<and> trim (sanitizeInput ''  <b>tip</b> '') = ''btip/b''"
proof -
  have "sanitizeInput ''  <b>tip</b> '' = ''btip/b''"
    by (simp add: sanitizeInput_def trim_def isWhiteSpace_def)
  moreover have "trim ''btip/b'' = ''btip/b''"
    by (simp add: trim_def isWhiteSpace_def)
  ultimately show ?thesis using C9_sanitize_twice[of "''  <b>tip</b> ''"] by simp
qed

section \<open>Properties of the transfer encoding\<close>

lemma hexVal_digitChar_all: "list_all (\<lambda>d. hexVal (digitChar d) = Some d) [0 ..< 16]"
  by code_simp

lemma hexVal_digitChar: "d < 16 \<Longrightarrow> hexVal (digitChar d) = Some d"
  using hexVal_digitChar_all by (simp add: list_all_iff)

lemma parseHexFrom_append:
  "parseHexFrom acc (xs @ ys) =
     (case parseHexFrom acc xs of None \<Rightarrow> None | Some a \<Rightarrow> parseHexFrom a ys)"
  by (induction xs arbitrary: acc) (auto split: option.splits)

lemma parseHexFrom_natToString:
  "parseHexFrom acc (natToString 16 n) = Some (acc * 16 ^ length (natToString 16 n) + n)"
proof (induction "16::nat" n arbitrary: acc rule: natToString.induct)
  case (1 n)
  show ?case
  proof (cases "n < 16")
    case True
    then show ?thesis
      by (subst (1 2) natToString.simps) (simp add: hexVal_digitChar)
  next
    case False
    have m: "n mod 16 < 16" by simp
    have ih: "parseHexFrom acc (natToString 16 (n div 16)) =
                Some (acc * 16 ^ length (natToString 16 (n div 16)) + n div 16)"
      using 1 False by simp
    show ?thesis
      using False
      by (subst (1 2) natToString.simps)
         (simp add: parseHexFrom_append ih hexVal_digitChar[OF m] algebra_simps)
  qed
qed

lemma parseHexFrom_zeros:
  "parseHexFrom 0 (replicate k CHR ''0'' @ xs) = parseHexFrom 0 xs"
  by (induction k) (simp_all add: hexVal_def)

lemma length_natToString:
  "n < 16 ^ k \<Longrightarrow> 0 < k \<Longrightarrow> length (natToString 16 n) \<le> k"
proof (induction k arbitrary: n)
  case 0
  then show ?case by simp
next
  case (Suc k)
  show ?case
  proof (cases "n < 16")
    case True
    then show ?thesis by (subst natToString.simps) simp
  next
    case False
    then have k: "0 < k" using Suc.prems by (cases k) auto
    have "n div 16 < 16 ^ k" using Suc.prems by (simp add: less_mult_imp_div_less mult.commute)
    from Suc.IH[OF this k] show ?thesis
      using False by (subst natToString.simps) simp
  qed
qed


lemma padStart_short: "length s \<le> n \<Longrightarrow> padStart n c s = replicate (n - length s) c @ s"
  by (simp add: padStart_def)

text \<open>
  Claim C7, for amounts that fit 32 bytes. For a recipient of the form \<open>0x\<close> and 40
  hexadecimal digits and an amount from 0 to \<open>2 ^ 256 - 1\<close>, \<open>encodeTransfer\<close> produces
  the selector \<open>a9059cbb\<close>, the recipient left-padded with zeros to 64 digits and the
  amount in hexadecimal left-padded with zeros to 64 digits, 138 characters in all, and
  decoding gives back the recipient and the amount.
\<close>

theorem C7_transfer_roundtrip:
  assumes addr: "tipSchema_recipient to"
    and lo: "0 \<le> amount" and hi: "amount < 2 ^ 256"
  shows "encodeTransfer to amount =
           ''0xa9059cbb'' @ replicate 24 CHR ''0'' @ drop 2 to
             @ replicate (64 - length (natToString 16 (nat amount))) CHR ''0''
             @ natToString 16 (nat amount)
       \<and> length (encodeTransfer to amount) = 138
       \<and> decodeTransfer (encodeTransfer to amount) = Some (to, amount)"
proof -
  let ?h = "natToString 16 (nat amount)"
  let ?a = "drop 2 to"
  have t2: "take 2 to = ''0x''" and la: "length ?a = 40"
    using addr by (simp_all add: tipSchema_recipient_def)
  have to: "to = ''0x'' @ ?a"
    using append_take_drop_id[of 2 to] t2 by simp
  have "nat amount < 16 ^ 64" using lo hi by (simp add: nat_less_iff)
  then have lh: "length ?h \<le> 64" by (rule length_natToString) simp
  have big: "bigintToString 16 amount = ?h" using lo by (simp add: bigintToString_def)
  have pa: "padStart 64 CHR ''0'' ?a = replicate 24 CHR ''0'' @ ?a"
    using la by (simp add: padStart_short)
  have ph: "padStart 64 CHR ''0'' ?h = replicate (64 - length ?h) CHR ''0'' @ ?h"
    using lh by (rule padStart_short)
  have enc: "encodeTransfer to amount =
           ''0xa9059cbb'' @ replicate 24 CHR ''0'' @ ?a @ replicate (64 - length ?h) CHR ''0'' @ ?h"
    unfolding encodeTransfer_def big pa ph by simp
  have len: "length (encodeTransfer to amount) = 138"
    unfolding enc using la lh by simp
  let ?z = "replicate (64 - length ?h) CHR ''0'' @ ?h"
  have lz: "length ?z = 64" using lh by simp
  have d10: "drop 10 (encodeTransfer to amount) = replicate 24 CHR ''0'' @ ?a @ ?z"
    unfolding enc by simp
  have d34: "drop 34 (encodeTransfer to amount) = ?a @ ?z"
    unfolding enc by simp
  have d74: "drop 74 (encodeTransfer to amount) = ?z"
    unfolding enc using la by simp
  have sel: "take 10 (encodeTransfer to amount) = ''0xa9059cbb''"
    unfolding enc by simp
  have pad: "take 24 (drop 10 (encodeTransfer to amount)) = replicate 24 CHR ''0''"
    unfolding d10 by simp
  have rcp: "take 40 (drop 34 (encodeTransfer to amount)) = ?a"
    unfolding d34 using la by simp
  have amt: "take 64 (drop 74 (encodeTransfer to amount)) = ?z"
    unfolding d74 using lz by simp
  have "parseHexFrom 0 ?z = parseHexFrom 0 ?h" by (rule parseHexFrom_zeros)
  also have "\<dots> = Some (nat amount)" by (simp add: parseHexFrom_natToString)
  finally have val: "parseHexFrom 0 ?z = Some (nat amount)" .
  have "decodeTransfer (encodeTransfer to amount) = Some (''0x'' @ ?a, int (nat amount))"
    unfolding decodeTransfer_def len sel pad rcp amt val by simp
  then have dec: "decodeTransfer (encodeTransfer to amount) = Some (to, amount)"
    using to lo by simp
  show ?thesis using enc len dec by blast
qed

lemma hex_2_256: "length (natToString 16 (2 ^ 256)) = 65"
  by (simp add: natToString.simps)

text \<open>
  Claim C7 speaks of every amount. The amount \<open>2 ^ 256\<close> has 65 hexadecimal digits;
  \<open>padStart\<close> does not shorten it, the call data has 139 characters and does not decode.
\<close>

theorem C7_counterexample:
  "length (encodeTransfer ''0x0000000000000000000000000000000000000001'' (2 ^ 256)) = 139
 \<and> decodeTransfer (encodeTransfer ''0x0000000000000000000000000000000000000001'' (2 ^ 256)) = None"
proof -
  have "length (bigintToString 16 (2 ^ 256)) = 65"
    using hex_2_256 by (simp add: bigintToString_def)
  then have l: "length (encodeTransfer ''0x0000000000000000000000000000000000000001'' (2 ^ 256)) = 139"
    by (simp add: encodeTransfer_def padStart_def)
  then show ?thesis by (simp add: decodeTransfer_def)
qed

lemma hex_1000000: "natToString 16 1000000 = ''f4240''"
  by (simp add: natToString.simps digitChar_def)

lemma replicate_num: "replicate (numeral k) x = x # replicate (pred_numeral k) x"
  by (simp add: numeral_eq_Suc)

theorem C7_witness:
  "encodeTransfer ''0x833589fCD6eDb6E08f4c7C32D4f71b54bdA02913'' 1000000 =
     ''0xa9059cbb000000000000000000000000833589fCD6eDb6E08f4c7C32D4f71b54bdA0291300000000000000000000000000000000000000000000000000000000000f4240''
 \<and> decodeTransfer (encodeTransfer ''0x833589fCD6eDb6E08f4c7C32D4f71b54bdA02913'' 1000000) =
     Some (''0x833589fCD6eDb6E08f4c7C32D4f71b54bdA02913'', 1000000)"
proof -
  have a: "tipSchema_recipient ''0x833589fCD6eDb6E08f4c7C32D4f71b54bdA02913''"
    by (simp add: tipSchema_recipient_def isHexDigit_def hexVal_def)
  have b: "(0::int) \<le> 1000000" "(1000000::int) < 2 ^ 256" by simp_all
  have enc: "encodeTransfer ''0x833589fCD6eDb6E08f4c7C32D4f71b54bdA02913'' 1000000 =
     ''0xa9059cbb000000000000000000000000833589fCD6eDb6E08f4c7C32D4f71b54bdA0291300000000000000000000000000000000000000000000000000000000000f4240''"
    by (simp add: encodeTransfer_def padStart_def bigintToString_def hex_1000000 replicate_num)
  have dec: "decodeTransfer (encodeTransfer ''0x833589fCD6eDb6E08f4c7C32D4f71b54bdA02913'' 1000000) =
     Some (''0x833589fCD6eDb6E08f4c7C32D4f71b54bdA02913'', 1000000)"
    using C7_transfer_roundtrip[OF a b] by blast
  show ?thesis by (rule conjI[OF enc dec])
qed

section \<open>Properties of the transaction preparer\<close>

subsection \<open>Digit strings\<close>

lemma digitsVal_foldl:
  "foldl (\<lambda>acc c. 10 * acc + digitVal c) a ys = a * 10 ^ length ys + digitsVal ys"
proof (induction ys arbitrary: a)
  case Nil
  then show ?case by (simp add: digitsVal_def)
next
  case (Cons y ys)
  have "foldl (\<lambda>acc c. 10 * acc + digitVal c) a (y # ys) =
          (10 * a + digitVal y) * 10 ^ length ys + digitsVal ys"
    using Cons.IH[of "10 * a + digitVal y"] by simp
  moreover have "digitsVal (y # ys) = digitVal y * 10 ^ length ys + digitsVal ys"
    using Cons.IH[of "digitVal y"] by (simp add: digitsVal_def)
  ultimately show ?case by (simp add: algebra_simps)
qed

lemma digitsVal_append: "digitsVal (xs @ ys) = digitsVal xs * 10 ^ length ys + digitsVal ys"
proof -
  have "digitsVal (xs @ ys) = foldl (\<lambda>acc c. 10 * acc + digitVal c) (digitsVal xs) ys"
    by (simp add: digitsVal_def)
  then show ?thesis by (simp add: digitsVal_foldl)
qed

lemma digitsVal_Nil: "digitsVal [] = 0"
  by (simp add: digitsVal_def)

lemma digitsVal_zeros: "digitsVal (replicate k CHR ''0'') = 0"
proof (induction k)
  case 0
  then show ?case by (simp add: digitsVal_Nil)
next
  case (Suc k)
  have "digitsVal (replicate (Suc k) CHR ''0'') = digitsVal ([CHR ''0''] @ replicate k CHR ''0'')"
    by simp
  also have "\<dots> = digitsVal [CHR ''0''] * 10 ^ k + digitsVal (replicate k CHR ''0'')"
    by (simp only: digitsVal_append length_replicate)
  also have "\<dots> = 0" using Suc by (simp add: digitsVal_def digitVal_def)
  finally show ?case .
qed

lemma digitsVal_nonneg: "list_all isDigit xs \<Longrightarrow> 0 \<le> digitsVal xs"
proof (induction xs rule: rev_induct)
  case Nil
  then show ?case by (simp add: digitsVal_Nil)
next
  case (snoc x xs)
  then have "0 \<le> digitsVal xs" and "0 \<le> digitVal x"
    by (simp_all add: isDigit_def digitVal_def)
  moreover have "digitsVal (xs @ [x]) = digitsVal xs * 10 + digitVal x"
    by (simp add: digitsVal_append) (simp add: digitsVal_def)
  ultimately show ?case by simp
qed

subsection \<open>Decimal strings\<close>

lemma not_digit_point: "\<not> isDigit CHR ''.''"
  by (simp add: isDigit_def)

lemma takeWhile_all: "list_all P xs \<Longrightarrow> takeWhile P xs = xs"
  by (simp add: list_all_iff)

lemma dropWhile_all: "list_all P xs \<Longrightarrow> dropWhile P xs = []"
  by (simp add: list_all_iff)

lemma takeWhile_digits_point:
  "list_all isDigit w \<Longrightarrow> takeWhile isDigit (w @ CHR ''.'' # f) = w"
  by (simp add: list_all_iff takeWhile_append2 not_digit_point)

lemma dropWhile_digits_point:
  "list_all isDigit w \<Longrightarrow> dropWhile isDigit (w @ CHR ''.'' # f) = CHR ''.'' # f"
  by (simp add: list_all_iff dropWhile_append2 not_digit_point)

lemma strDecimalLiteral_decimalString:
  assumes w: "list_all isDigit w" and f: "list_all isDigit f"
    and shape: "p \<or> f = []" and ne: "w \<noteq> [] \<or> f \<noteq> []"
  shows "strDecimalLiteral (decimalString w p f) = Some (digitsVal (w @ f), - int (length f))"
proof (cases p)
  case True
  then have u: "decimalString w p f = w @ CHR ''.'' # f" by (simp add: decimalString_def)
  show ?thesis
    unfolding u strDecimalLiteral_def
    using ne
    by (simp add: takeWhile_digits_point[OF w] dropWhile_digits_point[OF w]
        takeWhile_all[OF f] dropWhile_all[OF f] exponentPart_def Let_def)
next
  case False
  then have f0: "f = []" using shape by simp
  then have u: "decimalString w p f = w" using False by (simp add: decimalString_def)
  show ?thesis
    unfolding u strDecimalLiteral_def
    using ne f0
    by (simp add: takeWhile_all[OF w] dropWhile_all[OF w] exponentPart_def Let_def)
qed

lemma decimalString_first:
  assumes w: "list_all isDigit w" and ne: "w \<noteq> [] \<or> f \<noteq> []" and shape: "p \<or> f = []"
  shows "\<exists>c r. decimalString w p f = c # r \<and> (isDigit c \<or> c = CHR ''.'')"
proof (cases w)
  case Nil
  then have "p" "f \<noteq> []" using ne shape by auto
  then show ?thesis using Nil by (simp add: decimalString_def)
next
  case (Cons c r)
  then have "isDigit c" using w by simp
  then show ?thesis using Cons by (simp add: decimalString_def)
qed

lemma first_char_plain:
  assumes "isDigit c \<or> c = CHR ''.''"
  shows "\<not> isWhiteSpace c" "c \<noteq> CHR ''-''" "c \<noteq> CHR ''+''" "c \<noteq> CHR ''I''"
  using assms by (auto simp: isDigit_def isWhiteSpace_def)

lemma parseFloat_decimalString:
  assumes w: "list_all isDigit w" and f: "list_all isDigit f"
    and shape: "p \<or> f = []" and ne: "w \<noteq> [] \<or> f \<noteq> []"
  shows "parseFloat (decimalString w p f) = toDouble (digitsVal (w @ f)) (10 ^ length f)"
proof -
  obtain c r where u: "decimalString w p f = c # r" and c: "isDigit c \<or> c = CHR ''.''"
    using decimalString_first[OF w ne shape] by blast
  note fc = first_char_plain[OF c]
  have lit: "strDecimalLiteral (c # r) = Some (digitsVal (w @ f), - int (length f))"
    using strDecimalLiteral_decimalString[OF w f shape ne] unfolding u .
  have inf: "take 8 (c # r) \<noteq> ''Infinity''" using fc(4) by auto
  show ?thesis
  proof (cases "f = []")
    case True
    then show ?thesis
      unfolding u parseFloat_def using fc inf lit by (simp add: Let_def)
  next
    case False
    then have "\<not> 0 \<le> - int (length f)" by simp
    then show ?thesis
      unfolding u parseFloat_def using fc inf lit by (simp add: Let_def)
  qed
qed

subsection \<open>Rounding to binary64\<close>

lemma pow2_powi: "pow2 k = 2 powi k"
  by (simp add: pow2_def power_int_def inverse_eq_divide power_divide)

lemma pow2_pos: "0 < pow2 k"
  by (simp add: pow2_powi)

lemma pow2_mono: "i \<le> j \<Longrightarrow> pow2 i \<le> pow2 j"
  by (simp add: pow2_powi power_int_increasing)

lemma pow2_add: "pow2 (i + j) = pow2 i * pow2 j"
  by (simp add: pow2_powi power_int_add)

lemma pow2_nat: "0 \<le> k \<Longrightarrow> pow2 k = 2 ^ nat k"
  by (simp add: pow2_def)

lemma pow2_neg: "k < 0 \<Longrightarrow> pow2 k = 1 / 2 ^ nat (- k)"
  by (simp add: pow2_def)

lemma floorLog2_lower:
  assumes a: "0 < a" and b: "0 < b"
  shows "pow2 (floorLog2 a b) * of_int b \<le> (of_int a :: rat)"
proof -
  let ?d = "bitlen a - bitlen b"
  let ?c = "if 0 \<le> ?d then b * 2 ^ nat ?d \<le> a else b \<le> a * 2 ^ nat (- ?d)"
  show ?thesis
  proof (cases ?c)
    case True
    then have e: "floorLog2 a b = ?d" by (simp add: floorLog2_def Let_def)
    show ?thesis
    proof (cases "0 \<le> ?d")
      case True
      with \<open>?c\<close> have "b * 2 ^ nat ?d \<le> a" by simp
      then have "(of_int (b * 2 ^ nat ?d) :: rat) \<le> of_int a" by (simp only: of_int_le_iff)
      then show ?thesis unfolding e pow2_nat[OF True] by (simp add: mult.commute)
    next
      case False
      with \<open>?c\<close> have "b \<le> a * 2 ^ nat (- ?d)" by simp
      then have "(of_int b :: rat) \<le> of_int (a * 2 ^ nat (- ?d))" by (simp only: of_int_le_iff)
      then have "(of_int b :: rat) \<le> of_int a * 2 ^ nat (- ?d)" by simp
      then have "(of_int b :: rat) / 2 ^ nat (- ?d) \<le> of_int a"
        by (simp add: divide_le_eq)
      moreover have "?d < 0" using False by simp
      ultimately show ?thesis unfolding e by (simp add: pow2_neg)
    qed
  next
    case False
    then have e: "floorLog2 a b = ?d - 1" by (simp add: floorLog2_def Let_def)
    have ba: "1 \<le> bitlen a" using a by (simp add: bitlen_alt_def)
    have lo: "2 ^ nat (bitlen a - 1) \<le> a" and hi: "b < 2 ^ nat (bitlen b)"
      using bitlen_bounds[OF a] bitlen_bounds[OF b] by simp_all
    have hi': "(of_int b :: rat) \<le> pow2 (bitlen b)"
    proof -
      have "b \<le> 2 ^ nat (bitlen b)" using hi by simp
      then have "(of_int b :: rat) \<le> of_int (2 ^ nat (bitlen b))" by (simp only: of_int_le_iff)
      then show ?thesis by (simp add: pow2_nat[OF bitlen_nonneg])
    qed
    have lo': "pow2 (bitlen a - 1) \<le> (of_int a :: rat)"
    proof -
      have "(of_int (2 ^ nat (bitlen a - 1)) :: rat) \<le> of_int a" using lo by (simp only: of_int_le_iff)
      moreover have "0 \<le> bitlen a - 1" using ba by simp
      ultimately show ?thesis by (simp add: pow2_nat)
    qed
    have "pow2 (?d - 1) * of_int b \<le> pow2 (?d - 1) * pow2 (bitlen b)"
      using hi' pow2_pos[of "?d - 1"] by (simp add: mult_left_mono)
    also have "\<dots> = pow2 (bitlen a - 1)"
      by (simp add: pow2_add[symmetric])
    also have "\<dots> \<le> of_int a" by (rule lo')
    finally show ?thesis unfolding e .
  qed
qed

lemma floorLog2_upper:
  assumes a: "0 < a" and b: "0 < b"
  shows "(of_int a :: rat) < pow2 (floorLog2 a b + 1) * of_int b"
proof -
  let ?d = "bitlen a - bitlen b"
  let ?c = "if 0 \<le> ?d then b * 2 ^ nat ?d \<le> a else b \<le> a * 2 ^ nat (- ?d)"
  show ?thesis
  proof (cases ?c)
    case True
    then have e: "floorLog2 a b = ?d" by (simp add: floorLog2_def Let_def)
    have bb: "1 \<le> bitlen b" using b by (simp add: bitlen_alt_def)
    have hi: "a < 2 ^ nat (bitlen a)" and lo: "2 ^ nat (bitlen b - 1) \<le> b"
      using bitlen_bounds[OF a] bitlen_bounds[OF b] by simp_all
    have "(of_int a :: rat) < of_int (2 ^ nat (bitlen a))" using hi by (simp only: of_int_less_iff)
    then have "(of_int a :: rat) < pow2 (bitlen a)" by (simp add: pow2_nat[OF bitlen_nonneg])
    also have "\<dots> = pow2 (?d + 1) * pow2 (bitlen b - 1)" by (simp add: pow2_add[symmetric])
    also have "\<dots> \<le> pow2 (?d + 1) * of_int b"
    proof -
      have "(of_int (2 ^ nat (bitlen b - 1)) :: rat) \<le> of_int b" using lo by (simp only: of_int_le_iff)
      moreover have "0 \<le> bitlen b - 1" using bb by simp
      ultimately have "pow2 (bitlen b - 1) \<le> (of_int b :: rat)" by (simp add: pow2_nat)
      then show ?thesis using pow2_pos[of "?d + 1"] by (simp add: mult_left_mono)
    qed
    finally show ?thesis unfolding e .
  next
    case False
    then have e: "floorLog2 a b = ?d - 1" by (simp add: floorLog2_def Let_def)
    show ?thesis
    proof (cases "0 \<le> ?d")
      case True
      with \<open>\<not> ?c\<close> have "a < b * 2 ^ nat ?d" by simp
      then have "(of_int a :: rat) < of_int (b * 2 ^ nat ?d)" by (simp only: of_int_less_iff)
      then show ?thesis unfolding e using pow2_nat[OF True] by (simp add: mult.commute)
    next
      case False
      with \<open>\<not> ?c\<close> have "a * 2 ^ nat (- ?d) < b" by simp
      then have "(of_int (a * 2 ^ nat (- ?d)) :: rat) < of_int b" by (simp only: of_int_less_iff)
      then have "(of_int a :: rat) * 2 ^ nat (- ?d) < of_int b" by simp
      then have "(of_int a :: rat) < of_int b / 2 ^ nat (- ?d)" by (simp add: less_divide_eq)
      moreover have "?d < 0" using False by simp
      ultimately show ?thesis unfolding e by (simp add: pow2_neg)
    qed
  qed
qed

text \<open>
  The rounded value is a nearest one: it differs from the exact value by at most half
  a unit in the last place.
\<close>

lemma roundHalfEven_nearest:
  assumes d: "0 < d"
  shows "\<bar>(of_int (roundHalfEven n d) :: rat) - of_int n / of_int d\<bar> \<le> 1 / 2"
proof -
  let ?f = "n div d" and ?r = "n mod d"
  have r: "0 \<le> ?r" "?r < d" using d by simp_all
  have "n = ?f * d + ?r" by simp
  then have "(of_int n :: rat) = of_int ?f * of_int d + of_int ?r"
    by (metis of_int_add of_int_mult)
  then have q: "(of_int n :: rat) / of_int d = of_int ?f + of_int ?r / of_int d"
    using d by (simp add: field_simps)
  have dpos: "(0::rat) < of_int d" using d by simp
  consider (lo) "2 * ?r < d" | (hi) "d < 2 * ?r" | (tie) "2 * ?r = d" by linarith
  then show ?thesis
  proof cases
    case lo
    then have "(2::rat) * of_int ?r < of_int d" by (metis of_int_less_iff of_int_mult of_int_numeral)
    then have "(of_int ?r :: rat) / of_int d < 1 / 2" using dpos by (simp add: field_simps)
    moreover have "(0::rat) \<le> of_int ?r / of_int d" using r dpos by simp
    moreover have "roundHalfEven n d = ?f" using lo by (simp add: roundHalfEven_def Let_def)
    ultimately show ?thesis unfolding q by simp
  next
    case hi
    then have "(of_int d :: rat) < 2 * of_int ?r" by (metis of_int_less_iff of_int_mult of_int_numeral)
    then have a: "1 / 2 < (of_int ?r :: rat) / of_int d" using dpos by (simp add: field_simps)
    have "(of_int ?r :: rat) < of_int d" using r by simp
    then have b: "(of_int ?r :: rat) / of_int d < 1" using dpos by simp
    have "roundHalfEven n d = ?f + 1" using hi by (simp add: roundHalfEven_def Let_def)
    then show ?thesis unfolding q using a b by simp
  next
    case tie
    then have "(2::rat) * of_int ?r = of_int d" by (metis of_int_eq_iff of_int_mult of_int_numeral)
    then have a: "(of_int ?r :: rat) / of_int d = 1 / 2" using dpos by (simp add: field_simps)
    have "roundHalfEven n d = ?f \<or> roundHalfEven n d = ?f + 1"
      by (simp add: roundHalfEven_def Let_def)
    then show ?thesis unfolding q a by auto
  qed
qed


lemma toDouble_nearest:
  assumes a: "0 < a" and b: "0 < b" and v: "toDouble a b = Finite v"
  shows "\<bar>v - of_int a / of_int b\<bar> \<le> pow2 (max (floorLog2 a b - 52) (- 1074)) / 2"
proof -
  let ?q = "max (floorLog2 a b - 52) (- 1074)"
  let ?m = "if 0 \<le> ?q then roundHalfEven a (b * 2 ^ nat ?q)
            else roundHalfEven (a * 2 ^ nat (- ?q)) b"
  have td: "toDouble a b = (if 2 ^ 1024 \<le> of_int ?m * pow2 ?q then PosInfinity
                        else Finite (of_int ?m * pow2 ?q))"
    using a by (simp add: toDouble_def Let_def)
  have ve: "v = of_int ?m * pow2 ?q"
  proof (cases "2 ^ 1024 \<le> of_int ?m * pow2 ?q")
    case True
    then have "toDouble a b = PosInfinity" by (simp only: td if_True)
    with v show ?thesis by simp
  next
    case False
    then have "toDouble a b = Finite (of_int ?m * pow2 ?q)" by (simp only: td if_False)
    with v show ?thesis by (simp only: jsnumber.inject)
  qed
  have scaled: "\<bar>(of_int ?m :: rat) - of_int a / (of_int b * pow2 ?q)\<bar> \<le> 1 / 2"
  proof (cases "0 \<le> ?q")
    case True
    have "0 < b * 2 ^ nat ?q" using b by simp
    from roundHalfEven_nearest[OF this, of a]
    show ?thesis unfolding if_P[OF True] pow2_nat[OF True] by simp
  next
    case False
    then have neg: "?q < 0" by simp
    from roundHalfEven_nearest[OF b, of "a * 2 ^ nat (- ?q)"]
    show ?thesis unfolding if_not_P[OF False] pow2_neg[OF neg] by simp
  qed
  have "v - of_int a / of_int b = ((of_int ?m :: rat) - of_int a / (of_int b * pow2 ?q)) * pow2 ?q"
    unfolding ve using pow2_pos[of ?q] by (simp add: field_simps)
  then have "\<bar>v - of_int a / of_int b\<bar> =
               \<bar>(of_int ?m :: rat) - of_int a / (of_int b * pow2 ?q)\<bar> * pow2 ?q"
    using pow2_pos[of ?q] by (simp add: abs_mult)
  also have "\<dots> \<le> 1 / 2 * pow2 ?q"
    using scaled pow2_pos[of ?q] by (intro mult_right_mono) simp_all
  finally show ?thesis by simp
qed

lemma roundHalfEven_ge1:
  assumes "0 < d" "d \<le> n"
  shows "1 \<le> roundHalfEven n d"
proof -
  have "0 < n div d" using assms by (simp add: pos_imp_zdiv_pos_iff)
  then show ?thesis by (auto simp: roundHalfEven_def Let_def)
qed

lemma toDouble_positive:
  assumes a: "0 < a" and b: "0 < b"
    and tiny: "(of_int b :: rat) \<le> of_int a * 2 ^ 1074"
  shows "toDouble a b = PosInfinity \<or> (\<exists>v. toDouble a b = Finite v \<and> 0 < v)"
proof -
  let ?e = "floorLog2 a b"
  let ?q = "max (?e - 52) (- 1074)"
  let ?m = "if 0 \<le> ?q then roundHalfEven a (b * 2 ^ nat ?q)
            else roundHalfEven (a * 2 ^ nat (- ?q)) b"
  have ulp: "pow2 ?q * of_int b \<le> (of_int a :: rat)"
  proof (cases "?e - 52 \<le> - 1074")
    case True
    then have q: "?q = - 1074" by simp
    have "(of_int b :: rat) / 2 ^ 1074 \<le> of_int a" using tiny by (simp add: divide_le_eq)
    then show ?thesis unfolding q by (simp add: pow2_def)
  next
    case False
    then have q: "?q = ?e - 52" by simp
    have "pow2 (?e - 52) * of_int b \<le> pow2 ?e * (of_int b :: rat)"
      using pow2_mono[of "?e - 52" ?e] b by (simp add: mult_right_mono)
    also have "\<dots> \<le> of_int a" by (rule floorLog2_lower[OF a b])
    finally show ?thesis unfolding q .
  qed
  have m: "1 \<le> ?m"
  proof (cases "0 \<le> ?q")
    case True
    have "(of_int (b * 2 ^ nat ?q) :: rat) \<le> of_int a"
      using ulp unfolding pow2_nat[OF True] by (simp add: mult.commute)
    then have "b * 2 ^ nat ?q \<le> a" by (simp only: of_int_le_iff)
    moreover have "0 < b * 2 ^ nat ?q" using b by simp
    ultimately have "1 \<le> roundHalfEven a (b * 2 ^ nat ?q)" by (rule roundHalfEven_ge1[rotated])
    then show ?thesis unfolding if_P[OF True] .
  next
    case False
    then have neg: "?q < 0" by simp
    have "(of_int b :: rat) / 2 ^ nat (- ?q) \<le> of_int a"
      using ulp unfolding pow2_neg[OF neg] by simp
    then have "(of_int b :: rat) \<le> of_int (a * 2 ^ nat (- ?q))"
      by (simp add: divide_le_eq)
    then have "b \<le> a * 2 ^ nat (- ?q)" by (simp only: of_int_le_iff)
    then have "1 \<le> roundHalfEven (a * 2 ^ nat (- ?q)) b" using b by (intro roundHalfEven_ge1)
    then show ?thesis unfolding if_not_P[OF False] .
  qed
  have v: "0 < (of_int ?m :: rat) * pow2 ?q"
    using m pow2_pos[of ?q] by (simp add: zero_less_mult_iff)
  have "toDouble a b = (if 2 ^ 1024 \<le> of_int ?m * pow2 ?q then PosInfinity
                        else Finite (of_int ?m * pow2 ?q))"
    using a by (simp add: toDouble_def Let_def)
  then show ?thesis using v by auto
qed

subsection \<open>The preparer on decimal strings\<close>

lemma digitsVal_decimalValue:
  "(of_int (digitsVal (w @ f)) :: rat) = decimalValue w f * 10 ^ length f"
  by (simp add: digitsVal_append decimalValue_def algebra_simps)

lemma decimalValue_nonempty: "0 < decimalValue w f \<Longrightarrow> w \<noteq> [] \<or> f \<noteq> []"
  by (auto simp: decimalValue_def digitsVal_Nil)

lemma tipSchema_amount_decimalString:
  assumes w: "list_all isDigit w" and f: "list_all isDigit f"
    and shape: "p \<or> f = []" and len: "length f \<le> 18"
    and pos: "0 < decimalValue w f"
  shows "tipSchema_amount (decimalString w p f)"
proof -
  have ne: "w \<noteq> [] \<or> f \<noteq> []" using pos by (rule decimalValue_nonempty)
  let ?a = "digitsVal (w @ f)"
  have "(0::rat) < of_int ?a" unfolding digitsVal_decimalValue using pos by simp
  then have a: "0 < ?a" by simp
  have b: "(0::int) < 10 ^ length f" by simp
  have "(10::rat) ^ length f \<le> 10 ^ 18" using len by (intro power_increasing) simp_all
  also have "\<dots> \<le> 2 ^ 1074" by simp
  also have "\<dots> \<le> of_int ?a * 2 ^ 1074" using a by simp
  finally have tiny: "(of_int (10 ^ length f) :: rat) \<le> of_int ?a * 2 ^ 1074" by simp
  have pf: "parseFloat (decimalString w p f) = toDouble ?a (10 ^ length f)"
    by (rule parseFloat_decimalString[OF w f shape ne])
  from toDouble_positive[OF a b tiny] show ?thesis
    unfolding tipSchema_amount_def pf by (auto simp: isNaN_def js_greater_def)
qed

lemma parseUnits_decimalString:
  assumes w: "list_all isDigit w" and f: "list_all isDigit f"
    and shape: "p \<or> f = []" and ne: "w \<noteq> [] \<or> f \<noteq> []"
    and len: "length f \<le> unit"
    and fits: "digitsVal (w @ f) * 10 ^ (unit - length f) < 2 ^ 511"
  shows "parseUnits (decimalString w p f) unit = Inr (digitsVal (w @ f) * 10 ^ (unit - length f))"
proof -
  obtain c r where u: "decimalString w p f = c # r" and c: "isDigit c \<or> c = CHR ''.''"
    using decimalString_first[OF w ne shape] by blast
  have neg: "(case decimalString w p f of [] \<Rightarrow> False | c # r \<Rightarrow> c = CHR ''-'') = False"
    unfolding u using first_char_plain(2)[OF c] by simp
  have whole: "takeWhile isDigit (decimalString w p f) = w"
    and rest: "dropWhile isDigit (decimalString w p f) = (if p then CHR ''.'' # f else [])"
  proof -
    show "takeWhile isDigit (decimalString w p f) = w"
    proof (cases p)
      case True
      then show ?thesis by (simp add: decimalString_def takeWhile_digits_point[OF w])
    next
      case False
      then have "decimalString w p f = w" using shape by (simp add: decimalString_def)
      then show ?thesis by (simp add: takeWhile_all[OF w])
    qed
    show "dropWhile isDigit (decimalString w p f) = (if p then CHR ''.'' # f else [])"
    proof (cases p)
      case True
      then show ?thesis by (simp add: decimalString_def dropWhile_digits_point[OF w])
    next
      case False
      then have "decimalString w p f = w" using shape by (simp add: decimalString_def)
      then show ?thesis using False by (simp add: dropWhile_all[OF w])
    qed
  qed
  have r2: "(case (if p then CHR ''.'' # f else []) of [] \<Rightarrow> []
             | c # r \<Rightarrow> if c = CHR ''.'' then r else (if p then CHR ''.'' # f else [])) = f"
    using shape by auto
  let ?padded = "f @ replicate (unit - length f) CHR ''0''"
  have lp: "length ?padded = unit" using len by simp
  have d: "drop unit ?padded = []" and t: "take unit ?padded = ?padded" using lp by simp_all
  have n: "digitsVal (w @ take unit ?padded) = digitsVal (w @ f) * 10 ^ (unit - length f)"
  proof -
    have "digitsVal (w @ ?padded) = digitsVal ((w @ f) @ replicate (unit - length f) CHR ''0'')"
      by simp
    also have "\<dots> = digitsVal (w @ f) * 10 ^ (unit - length f)"
      by (simp only: digitsVal_append[of "w @ f"] digitsVal_zeros length_replicate add_0_right)
    finally show ?thesis unfolding t .
  qed
  have wf: "list_all isDigit (w @ f)" using w f by simp
  have nonneg: "0 \<le> digitsVal (w @ f) * 10 ^ (unit - length f)"
    using digitsVal_nonneg[OF wf] by simp
  have range: "\<not> (digitsVal (w @ f) * 10 ^ (unit - length f) < - (2 ^ 511)
                \<or> 2 ^ 511 \<le> digitsVal (w @ f) * 10 ^ (unit - length f))"
    using nonneg fits by simp
  have c1: "\<not> ([] \<noteq> ([]::string) \<or> w = [] \<and> f = [])" using ne by simp
  show ?thesis
    unfolding parseUnits_def Let_def
    by (simp only: neg if_False whole rest r2 takeWhile_all[OF f] dropWhile_all[OF f]
        d n list.pred_inject not_True_eq_False c1 range)
qed

lemma preferredChain_base:
  "preferredChain (getSupportedChains isProduction) = Some \<lparr>chain_id = 8453, chain_name = ''Base''\<rparr>"
proof -
  have l: "toLowerCase ''Ethereum'' \<noteq> ''base''" "toLowerCase ''Base'' = ''base''"
    by code_simp+
  show ?thesis
    by (cases isProduction)
       (simp_all add: preferredChain_def getSupportedChains_def SUPPORTED_CHAINS_def l)
qed

lemma decimalString_nonempty:
  "w \<noteq> [] \<or> f \<noteq> [] \<Longrightarrow> decimalString w p f \<noteq> []"
  by (auto simp: decimalString_def)

lemma tipSchema_recipient_nonempty: "tipSchema_recipient r \<Longrightarrow> r \<noteq> []"
  by (auto simp: tipSchema_recipient_def)

lemma prepareTip_reaches_branch:
  assumes w: "list_all isDigit w" and f: "list_all isDigit f"
    and shape: "p \<or> f = []" and len: "length f \<le> 18"
    and pos: "0 < decimalValue w f" and max: "decimalValue w f \<le> 1000000"
    and rcp: "tipSchema_recipient recipient"
    and tok: "token \<noteq> []"
  shows "prepareTip enc isProduction (Some (decimalString w p f)) (Some token) (Some recipient) =
           (if token = ''ETH''
            then TransactionFrame 8453
                   \<lparr>tx_to = recipient,
                    tx_value = bigintToString 10 (digitsVal (w @ f) * 10 ^ (18 - length f)),
                    tx_data = ''0x''\<rparr>
            else
              (case getTokenContract token 8453 of
                 None \<Rightarrow> TokenNotSupported (''Token '' @ token @ '' not supported on Base'')
               | Some tokenContract \<Rightarrow>
                   (case getTokenDecimals token of
                      Own d \<Rightarrow>
                        (case parseUnits (decimalString w p f) d of
                           Inl _ \<Rightarrow> ErrorFrame
                         | Inr tokenAmount \<Rightarrow>
                             (case enc recipient tokenAmount of
                                None \<Rightarrow> ErrorFrame
                              | Some transferData \<Rightarrow>
                                  TransactionFrame 8453
                                    \<lparr>tx_to = (case address tokenContract of
                                                Own a \<Rightarrow> a | _ \<Rightarrow> []),
                                     tx_value = ''0'', tx_data = transferData\<rparr>))
                    | _ \<Rightarrow> ErrorFrame)))"
proof -
  have ne: "w \<noteq> [] \<or> f \<noteq> []" using pos by (rule decimalValue_nonempty)
  let ?amount = "decimalString w p f"
  have od: "orDefault (Some ?amount) ''0.01'' = ?amount"
    "orDefault (Some token) ''ETH'' = token" "orDefault (Some recipient) [] = recipient"
    using decimalString_nonempty[OF ne, of p] tok tipSchema_recipient_nonempty[OF rcp]
    by (simp_all add: orDefault_def)
  have schema: "tipSchema ?amount token recipient"
    using tipSchema_amount_decimalString[OF w f shape len pos] rcp tok
    by (simp add: tipSchema_def tipSchema_token_def Suc_le_eq)
  have "(of_int (digitsVal (w @ f) * 10 ^ (18 - length f)) :: rat) = decimalValue w f * 10 ^ 18"
  proof -
    have "(of_int (digitsVal (w @ f) * 10 ^ (18 - length f)) :: rat) =
            decimalValue w f * (10 ^ length f * 10 ^ (18 - length f))"
      by (simp add: digitsVal_decimalValue)
    also have "(10::rat) ^ length f * 10 ^ (18 - length f) = 10 ^ 18"
      using len by (simp add: power_add[symmetric])
    finally show ?thesis .
  qed
  also have "\<dots> \<le> 1000000 * 10 ^ 18" using max by simp
  also have "\<dots> < of_int (2 ^ 511)" by simp
  finally have fits: "digitsVal (w @ f) * 10 ^ (18 - length f) < 2 ^ 511"
    by (simp only: of_int_less_iff)
  have pe: "parseEther ?amount = Inr (digitsVal (w @ f) * 10 ^ (18 - length f))"
    unfolding parseEther_def by (rule parseUnits_decimalString[OF w f shape ne len fits])
  show ?thesis
    unfolding prepareTip_def od Let_def
    using schema by (simp add: preferredChain_base pe split: option.split sum.split property.split)
qed

lemma POST_reaches_preparer:
  assumes "success (fst (limit rateLimit (case ip of None \<Rightarrow> ''anonymous'' | Some a \<Rightarrow> a) now sweep))"
    and "validateFrameMessage urlParses message"
  shows "fst (POST enc isProduction rateLimit now sweep ip (Some message) urlParses
                amountParam tokenParam recipientParam) =
           prepareTip enc isProduction amountParam tokenParam recipientParam"
  using assms by (simp add: POST_def Let_def case_prod_beta)

subsection \<open>Native transfers\<close>












subsection \<open>Tokens without a contract on the resolved chain\<close>

lemma getTokenContract_no_entry:
  "tokenAddressEntry cid token = Missing \<Longrightarrow> getTokenContract token cid = None"
  by (simp add: getTokenContract_def Let_def)

lemma tokenAddressEntry_Missing:
  "tokenAddressEntry cid token = Missing \<longleftrightarrow>
     (case map_of TOKEN_ADDRESSES cid of None \<Rightarrow> True | Some m \<Rightarrow> map_of m token = None)
     \<and> (map_of TOKEN_ADDRESSES cid = None \<or> token \<notin> set objectPrototypeNames)"
  by (auto simp: tokenAddressEntry_def readProperty_def split: option.splits)

text \<open>
  The rejection of an unsupported token, where it holds: a valid amount and recipient, a
  token other than \<open>ETH\<close>, and no entry for the token, own or inherited, in the address
  table of the resolved chain.
\<close>

lemma prepareTip_rejects_unsupported:
  assumes w: "list_all isDigit whole" and f: "list_all isDigit fraction"
    and shape: "point \<or> fraction = []" and len: "length fraction \<le> 18"
    and pos: "0 < decimalValue whole fraction" and max: "decimalValue whole fraction \<le> 1000000"
    and rcp: "tipSchema_recipient recipient"
    and tok: "token \<noteq> []" and nonnative: "token \<noteq> ''ETH''"
    and resolved: "preferredChain (getSupportedChains isProduction) = Some resolvedChain"
    and noaddr: "tokenAddressEntry (chain_id resolvedChain) token = Missing"
  shows "prepareTip enc isProduction (Some (decimalString whole point fraction)) (Some token)
           (Some recipient) =
           TokenNotSupported (''Token '' @ token @ '' not supported on '' @ chain_name resolvedChain)"
proof -
  have c: "resolvedChain = \<lparr>chain_id = 8453, chain_name = ''Base''\<rparr>"
    using resolved by (simp add: preferredChain_base)
  have "getTokenContract token 8453 = None"
    using getTokenContract_no_entry[OF noaddr] unfolding c by simp
  then show ?thesis
    using prepareTip_reaches_branch[OF w f shape len pos max rcp tok, of enc isProduction] nonnative
    unfolding c by simp
qed

lemma sample_amount:
  "list_all isDigit ''0''" "list_all isDigit ''1''" "True \<or> ''1'' = []" "length ''1'' \<le> 18"
  "0 < decimalValue ''0'' ''1''" "decimalValue ''0'' ''1'' \<le> 1000000"
  "decimalString ''0'' True ''1'' = ''0.1''"
  by (simp_all add: isDigit_def decimalValue_def digitsVal_def digitVal_def decimalString_def)

lemma sample_recipient: "tipSchema_recipient ''0x0000000000000000000000000000000000000001''"
  by (simp add: tipSchema_recipient_def isHexDigit_def hexVal_def)

text \<open>
  Claim C8. The token \<open>constructor\<close> has no contract address configured on Base, the
  resolved chain, and the route's schema accepts it. The read of the address table finds
  the member inherited from \<^verbatim>\<open>Object.prototype\<close>, \<open>getTokenContract\<close> does not return
  \<^verbatim>\<open>null\<close>, and the request ends in the error frame of the \<^verbatim>\<open>catch\<close> block instead of the
  rejection that names the token and the chain. The token \<open>USDT\<close>, which has no address
  on Base either, is rejected as the claim says.
\<close>

theorem C8_inherited_name_not_rejected:
  "map_of [(''USDC'', ''0x833589fCD6eDb6E08f4c7C32D4f71b54bdA02913''),
           (''WETH'', ''0x4200000000000000000000000000000000000006'')] ''constructor'' = None
 \<and> map_of TOKEN_ADDRESSES 8453 =
       Some [(''USDC'', ''0x833589fCD6eDb6E08f4c7C32D4f71b54bdA02913''),
             (''WETH'', ''0x4200000000000000000000000000000000000006'')]
 \<and> prepareTip (\<lambda>to amount. None) True (Some ''0.1'') (Some ''constructor'')
       (Some ''0x0000000000000000000000000000000000000001'') = ErrorFrame
 \<and> prepareTip (\<lambda>to amount. None) True (Some ''0.1'') (Some ''USDT'')
       (Some ''0x0000000000000000000000000000000000000001'') =
       TokenNotSupported ''Token USDT not supported on Base''"
proof -
  have t: "map_of TOKEN_ADDRESSES 8453 =
       Some [(''USDC'', ''0x833589fCD6eDb6E08f4c7C32D4f71b54bdA02913''),
             (''WETH'', ''0x4200000000000000000000000000000000000006'')]"
    by (simp add: TOKEN_ADDRESSES_def)
  have gc: "getTokenContract ''constructor'' 8453 =
              Some \<lparr>address = Inherited, chainId = 8453, symbol = ''constructor'',
                    decimals = Inherited\<rparr>"
    by (simp add: getTokenContract_def tokenAddressEntry_def t readProperty_def
        objectPrototypeNames_def TOKEN_DECIMALS_def Let_def)
  have gd: "getTokenDecimals ''constructor'' = Inherited"
    by (simp add: getTokenDecimals_def readProperty_def objectPrototypeNames_def
        TOKEN_DECIMALS_def)
  have tok: "''constructor'' \<noteq> []" by simp
  have bad: "prepareTip (\<lambda>to amount. None) True (Some ''0.1'') (Some ''constructor'')
       (Some ''0x0000000000000000000000000000000000000001'') = ErrorFrame"
    using prepareTip_reaches_branch[OF sample_amount(1-6) sample_recipient tok,
        of "\<lambda>to amount. None" True]
    unfolding sample_amount(7) by (simp add: gc gd)
  have ch: "preferredChain (getSupportedChains True) = Some \<lparr>chain_id = 8453, chain_name = ''Base''\<rparr>"
    by (rule preferredChain_base)
  have na: "tokenAddressEntry (chain_id \<lparr>chain_id = 8453, chain_name = ''Base''\<rparr>) ''USDT'' = Missing"
    by (simp add: tokenAddressEntry_def t readProperty_def objectPrototypeNames_def)
  have tok2: "''USDT'' \<noteq> []" "''USDT'' \<noteq> ''ETH''" by simp_all
  have good: "prepareTip (\<lambda>to amount. None) True (Some ''0.1'') (Some ''USDT'')
       (Some ''0x0000000000000000000000000000000000000001'') =
       TokenNotSupported ''Token USDT not supported on Base''"
    using prepareTip_rejects_unsupported[OF sample_amount(1-6) sample_recipient tok2 ch na,
        of "\<lambda>to amount. None"]
    unfolding sample_amount(7) by simp
  show ?thesis using t bad good by simp
qed

end
